theory Spec2Isabelle
  imports Complex_Main
begin

section \<open>Data model of the product form\<close>

text \<open>
  The product dialog of the admin panel (component \<open>ProductManagement\<close>) keeps a draft
  of the product in its form state. Identifiers are the text of database UUID keys, sizes
  are free text, a missing value (\<open>null\<close>, \<open>undefined\<close>) is \<open>None\<close>. Stock quantities
  are whole numbers (the inputs go through \<open>parseInt\<close>, the column is an INTEGER), each
  one a value that a double holds.
\<close>

record ColorItem =
  id_c :: string
  name_c :: string
  hex :: string

record Variant =
  id_v :: "string option"
  product_id :: "string option"
  color_id :: "string option"
  size_v :: string
  sku_v :: string
  price_v :: "rat option"
  stock_quantity_v :: int
  image_urls :: "string list"
  is_primary :: bool

datatype status = active | inactive

record FormData =
  sku :: string
  name :: string
  description :: string
  price :: string
  discount_price :: string
  collection_id :: string
  stock_quantity :: string
  status :: status
  fabrics :: "string list"
  variants :: "Variant list"
  colors :: "ColorItem list"
  sizes :: "string list"

text \<open>JavaScript truthiness of a string that may be missing: present and not empty.\<close>

definition truthy :: "string option \<Rightarrow> bool" where
  "truthy s = (case s of None \<Rightarrow> False | Some t \<Rightarrow> t \<noteq> [])"

section \<open>The variant matrix: setSizes and setColors\<close>

text \<open>
  Text is a list of 8-bit characters. \<open>toUpperCase\<close> is modelled on the ASCII letters
  only, and other characters are left as they are; JavaScript also maps letters beyond
  ASCII. It is used for the SKU of a new variant and nowhere else.
\<close>

definition toUpperCase_char :: "char \<Rightarrow> char" where
  "toUpperCase_char c =
     (let n = (of_char c :: nat) in if 97 \<le> n \<and> n \<le> 122 then char_of (n - 32) else c)"

definition toUpperCase :: "string \<Rightarrow> string" where
  "toUpperCase s = map toUpperCase_char s"

text \<open>
  The variant both setters push for a missing pair. \<open>suffix\<close> stands for
  \<open>Math.random().toString(36).substring(2, 6).toUpperCase()\<close>.
\<close>

definition new_variant :: "string \<Rightarrow> ColorItem \<Rightarrow> string \<Rightarrow> string \<Rightarrow> Variant" where
  "new_variant prefix colorObj sz suffix =
     \<lparr> id_v = None, product_id = None,
       color_id = Some (id_c colorObj),
       size_v = sz,
       sku_v = (if prefix \<noteq> [] then prefix @ ''-'' else []) @
               toUpperCase (take 3 (name_c colorObj)) @ ''-'' @
               toUpperCase (take 3 sz) @ ''-'' @ suffix,
       price_v = None,
       stock_quantity_v = 0,
       image_urls = [],
       is_primary = False \<rparr>"

text \<open>
  The body of the inner \<open>forEach\<close>: look for a variant of the pair and push a new one when
  there is none. The random draws of one call are the sequence \<open>rnd\<close>; the draw made while
  the list has \<open>n\<close> entries is \<open>rnd n\<close> (every push lengthens the list, so no draw is used
  twice).
\<close>

definition ensure_variant ::
  "(nat \<Rightarrow> string) \<Rightarrow> string \<Rightarrow> ColorItem \<Rightarrow> string \<Rightarrow> Variant list \<Rightarrow> Variant list" where
  "ensure_variant rnd prefix colorObj sz newVariants =
     (case List.find (\<lambda>v. color_id v = Some (id_c colorObj) \<and> size_v v = sz) newVariants of
        None \<Rightarrow> newVariants @ [new_variant prefix colorObj sz (rnd (length newVariants))]
      | Some exists \<Rightarrow> newVariants)"

definition setSizes :: "(nat \<Rightarrow> string) \<Rightarrow> FormData \<Rightarrow> string list \<Rightarrow> FormData" where
  "setSizes rnd prev newSizes =
     (let newVariants = filter (\<lambda>v. size_v v \<in> set newSizes) (variants prev);
          newVariants' =
            foldl (\<lambda>vs sz.
                     foldl (\<lambda>vs colorObj. ensure_variant rnd (sku prev) colorObj sz vs)
                       vs (colors prev))
              newVariants newSizes
      in prev\<lparr>sizes := newSizes, variants := newVariants'\<rparr>)"

definition setColors :: "(nat \<Rightarrow> string) \<Rightarrow> FormData \<Rightarrow> ColorItem list \<Rightarrow> FormData" where
  "setColors rnd prev newColors =
     (let colorIds = map id_c newColors;
          newVariants =
            filter (\<lambda>v. truthy (color_id v) \<and> the (color_id v) \<in> set colorIds) (variants prev);
          newVariants' =
            foldl (\<lambda>vs colorObj.
                     foldl (\<lambda>vs sz. ensure_variant rnd (sku prev) colorObj sz vs)
                       vs (sizes prev))
              newVariants newColors
      in prev\<lparr>colors := newColors, variants := newVariants'\<rparr>)"

section \<open>The primary colour\<close>

text \<open>\<open>Array.prototype.findIndex\<close>: the index of the first match, or \<open>-1\<close>.\<close>

fun findIndex_from :: "('a \<Rightarrow> bool) \<Rightarrow> 'a list \<Rightarrow> int \<Rightarrow> int" where
  "findIndex_from P [] i = -1"
| "findIndex_from P (x # xs) i = (if P x then i else findIndex_from P xs (i + 1))"

definition findIndex :: "('a \<Rightarrow> bool) \<Rightarrow> 'a list \<Rightarrow> int" where
  "findIndex P xs = findIndex_from P xs 0"

definition setPrimaryColor :: "FormData \<Rightarrow> string \<Rightarrow> FormData" where
  "setPrimaryColor prev colorId =
     prev\<lparr>variants :=
       map (\<lambda>(i, v).
              let isFirstOfColor =
                    (findIndex (\<lambda>varnt. color_id varnt = Some colorId) (variants prev) = int i)
              in v\<lparr>is_primary := (Some colorId = color_id v \<and> isFirstOfColor)\<rparr>)
           (enumerate 0 (variants prev))\<rparr>"

section \<open>Saving: handleSubmit\<close>

text \<open>
  The dialog's state besides the draft: the files waiting for upload, the product being
  edited (only its id is read on save; \<open>None\<close> while a product is created), the id whose
  details are fetched, and whether the dialog is open.
\<close>

record PendingFile =
  file_pf :: string
  preview :: string
  colorId :: "string option"

record Component =
  formData :: FormData
  pendingFiles :: "PendingFile list"
  editingProduct :: "string option"
  selectedProductId :: "string option"
  isDialogOpen :: bool

text \<open>
  The stock of the product row is computed with JavaScript's \<open>+\<close> on numbers, which are
  IEEE 754 doubles. Adding whole numbers gives the exact sum rounded to the nearest double
  (ties to the even mantissa): the sum itself up to \<open>2^53\<close> in size, a multiple of a power
  of two beyond, an infinity from \<open>2^1024 - 2^970\<close> on. An infinity stays what it is when a
  whole number is added.
\<close>

datatype number = Num int | PosInfinity | NegInfinity

text \<open>The spacing of the doubles around a whole number \<open>a\<close> of size \<open>2^52\<close> at least.\<close>

function ulp :: "int \<Rightarrow> int" where
  "ulp a = (if a < 2 ^ 53 then 1 else 2 * ulp (a div 2))"
  by pat_completeness auto
termination
  by (relation "measure nat") auto

declare ulp.simps [simp del]

definition round_double :: "int \<Rightarrow> number" where
  "round_double n =
     (let a = \<bar>n\<bar> in
      if a \<le> 2 ^ 53 then Num n
      else
        (let u = ulp a;
             q = a div u;
             r = a mod u;
             m = (if 2 * r < u \<or> (2 * r = u \<and> even q) then q else q + 1) * u
         in if 2 ^ 1024 \<le> m then (if n < 0 then NegInfinity else PosInfinity)
            else Num (if n < 0 then - m else m)))"

definition js_add :: "number \<Rightarrow> int \<Rightarrow> number" where
  "js_add acc n =
     (case acc of
        Num a \<Rightarrow> round_double (a + n)
      | PosInfinity \<Rightarrow> PosInfinity
      | NegInfinity \<Rightarrow> NegInfinity)"

text \<open>
  The row written to \<open>products\<close>. The two prices go through \<open>parseFloat\<close>; they are
  carried here as the text that is parsed.
\<close>

record ProductPayload =
  sku_p :: string
  name_p :: string
  description_p :: string
  price_p :: string
  discount_price_p :: "string option"
  collection_id_p :: "string option"
  fabrics_p :: "string list"
  status_p :: status
  stock_quantity_p :: number

text \<open>
  The remote tables the save touches: \<open>products\<close> by id, and the rows of
  \<open>product_variants\<close> (a row is a variant without an id of the form's, tagged with its
  product).
\<close>

record Database =
  products :: "string \<rightharpoonup> ProductPayload"
  product_variants :: "Variant list"

text \<open>
  What is thrown: an \<open>Error\<close> instance with its message, or some other value (the
  handler shows "Submission failed" for it).
\<close>

datatype thrown = ErrorObj string | NotAnError

text \<open>
  The backend is outside the component. One save asks it for at most one answer of each
  kind, so its behaviour during a save is given by those answers: the public URL of an
  uploaded file or a failure, and for each database call the error it returns, if any
  (the insert of a product returns the new row's id). A call that returns an error leaves
  the tables as they were.
\<close>

record Backend =
  upload_result :: "string \<Rightarrow> string option"
  update_error :: "thrown option"
  insert_result :: "thrown + string"
  delete_error :: "thrown option"
  variants_error :: "thrown option"

datatype call =
    Upload string
  | UpdateProduct string ProductPayload
  | InsertProduct ProductPayload
  | DeleteVariants string
  | InsertVariants "Variant list"

text \<open>
  A run of the handler: how it ended (the validation returned, the \<open>catch\<close> block ran, or
  the \<open>try\<close> block reached its end), the dialog's state and the tables afterwards, the
  calls made to the backend and the toasts shown, both in order. \<open>ToastLoading n\<close> is
  "Uploading n images...".
\<close>

datatype toast = ToastError string | ToastLoading nat | ToastSuccess string

datatype outcome = Rejected | Failed | Saved

record Run =
  outcome :: outcome
  component :: Component
  database :: Database
  calls :: "call list"
  toasts :: "toast list"

definition initialFormData :: FormData where
  "initialFormData =
     \<lparr> sku = [], name = [], description = [], price = [], discount_price = [],
       collection_id = [], stock_quantity = [], status = active, fabrics = [],
       variants = [], colors = [], sizes = [] \<rparr>"

definition resetForm :: "Component \<Rightarrow> Component" where
  "resetForm st =
     st\<lparr>formData := initialFormData, pendingFiles := [], editingProduct := None,
        selectedProductId := None\<rparr>"

text \<open>One step of \<open>uploadedResults.forEach\<close>; a result is the pair of \<open>url\<close> and \<open>colorId\<close>.\<close>

definition attach_url :: "string \<times> string option \<Rightarrow> Variant list \<Rightarrow> Variant list" where
  "attach_url result currentVariants =
     (if truthy (snd result) then
        map (\<lambda>v. if color_id v = snd result
                 then v\<lparr>image_urls := (if fst result \<in> set (image_urls v) then image_urls v
                                       else image_urls v @ [fst result])\<rparr>
                 else v)
          currentVariants
      else currentVariants)"

definition productPayload :: "FormData \<Rightarrow> Variant list \<Rightarrow> ProductPayload" where
  "productPayload fd currentVariants =
     \<lparr> sku_p = sku fd, name_p = name fd, description_p = description fd,
       price_p = price fd,
       discount_price_p = (if discount_price fd \<noteq> [] then Some (discount_price fd) else None),
       collection_id_p = (if collection_id fd \<noteq> [] then Some (collection_id fd) else None),
       fabrics_p = fabrics fd, status_p = status fd,
       stock_quantity_p =
         foldl (\<lambda>acc v. js_add acc (stock_quantity_v v)) (Num 0) currentVariants \<rparr>"

text \<open>"Ensure at least one variant is primary if any exist".\<close>

definition force_primary :: "Variant list \<Rightarrow> Variant list" where
  "force_primary currentVariants =
     (if currentVariants \<noteq> [] \<and> \<not> (\<exists>v \<in> set currentVariants. is_primary v)
      then currentVariants[0 := (currentVariants ! 0)\<lparr>is_primary := True\<rparr>]
      else currentVariants)"

definition message_of :: "thrown \<Rightarrow> string" where
  "message_of e = (case e of ErrorObj m \<Rightarrow> m | NotAnError \<Rightarrow> ''Submission failed'')"

text \<open>The \<open>catch\<close> block: an error toast; nothing else changes.\<close>

definition failed :: "Component \<Rightarrow> Database \<Rightarrow> call list \<Rightarrow> toast list \<Rightarrow> thrown \<Rightarrow> Run" where
  "failed st db cs ts e =
     \<lparr> outcome = Failed, component = st, database = db, calls = cs,
       toasts = ts @ [ToastError (message_of e)] \<rparr>"

text \<open>The end of the \<open>try\<close> block: success toast, the dialog closes, the form is reset.\<close>

definition succeeded :: "Component \<Rightarrow> Database \<Rightarrow> call list \<Rightarrow> toast list \<Rightarrow> Run" where
  "succeeded st db cs ts =
     \<lparr> outcome = Saved, component = (resetForm st)\<lparr>isDialogOpen := False\<rparr>, database = db,
       calls = cs,
       toasts = ts @ [ToastSuccess (if editingProduct st \<noteq> None then ''Product updated''
                                    else ''Product created'')] \<rparr>"

text \<open>
  The block \<open>if (productId) { ... }\<close>: delete the product's rows, force a primary
  variant, insert the list. The write \<open>currentVariants[0].is_primary = true\<close> is done on
  an object the form state holds too, so the draft sees it.
\<close>

definition save_variants ::
  "Backend \<Rightarrow> Component \<Rightarrow> Database \<Rightarrow> string option \<Rightarrow> Variant list \<Rightarrow> call list \<Rightarrow> toast list \<Rightarrow> Run"
  where
  "save_variants be st db productId currentVariants cs ts =
     (if truthy productId then
        (let pid = the productId; cs1 = cs @ [DeleteVariants pid] in
         case delete_error be of
           Some deleteError \<Rightarrow> failed st db cs1 ts deleteError
         | None \<Rightarrow>
             (let db1 = db\<lparr>product_variants :=
                            filter (\<lambda>r. product_id r \<noteq> Some pid) (product_variants db)\<rparr>;
                  currentVariants' = force_primary currentVariants;
                  st1 = st\<lparr>formData := (formData st)\<lparr>variants := currentVariants'\<rparr>\<rparr>;
                  variantsToInsert =
                    map (\<lambda>v. v\<lparr>id_v := None, product_id := Some pid\<rparr>) currentVariants'
              in if variantsToInsert \<noteq> [] then
                   (let cs2 = cs1 @ [InsertVariants variantsToInsert] in
                    case variants_error be of
                      Some variantError \<Rightarrow> failed st1 db1 cs2 ts variantError
                    | None \<Rightarrow>
                        succeeded st1
                          (db1\<lparr>product_variants := product_variants db1 @ variantsToInsert\<rparr>)
                          cs2 ts)
                 else succeeded st1 db1 cs1 ts))
      else succeeded st db cs ts)"

text \<open>
  The product row: an update of the edited product, or an insert that returns the new id.
  The result is the call made and either the error or the product id with the tables after
  the write.
\<close>

definition write_product ::
  "Backend \<Rightarrow> string option \<Rightarrow> ProductPayload \<Rightarrow> Database \<Rightarrow> call \<times> (thrown + string \<times> Database)"
  where
  "write_product be editing payload db =
     (case editing of
        Some pid \<Rightarrow>
          (UpdateProduct pid payload,
           case update_error be of
             Some error \<Rightarrow> Inl error
           | None \<Rightarrow>
               Inr (pid, db\<lparr>products := (if pid \<in> dom (products db)
                                           then (products db)(pid \<mapsto> payload)
                                           else products db)\<rparr>))
      | None \<Rightarrow>
          (InsertProduct payload,
           case insert_result be of
             Inl error \<Rightarrow> Inl error
           | Inr new_id \<Rightarrow> Inr (new_id, db\<lparr>products := (products db)(new_id \<mapsto> payload)\<rparr>)))"

definition save_product ::
  "Backend \<Rightarrow> Component \<Rightarrow> Database \<Rightarrow> Variant list \<Rightarrow> call list \<Rightarrow> toast list \<Rightarrow> Run" where
  "save_product be st db currentVariants cs ts =
     (let payload = productPayload (formData st) currentVariants;
          (c, written) = write_product be (editingProduct st) payload db
      in case written of
           Inl error \<Rightarrow> failed st db (cs @ [c]) ts error
         | Inr (productId, db1) \<Rightarrow>
             save_variants be st db1 (Some productId) currentVariants (cs @ [c]) ts)"

text \<open>
  The uploads. All are started together (\<open>Promise.all\<close>), so each pending file is a call,
  in list order; one failure rejects the whole and lands in \<open>catch\<close>. When all succeed,
  each URL is added to the variants of its colour.
\<close>

definition uploadedResults :: "Backend \<Rightarrow> Component \<Rightarrow> (string \<times> string option) list" where
  "uploadedResults be st =
     map (\<lambda>pf. (the (upload_result be (file_pf pf)), colorId pf)) (pendingFiles st)"

definition uploaded_variants :: "Backend \<Rightarrow> Component \<Rightarrow> Variant list" where
  "uploaded_variants be st =
     foldl (\<lambda>currentVariants result. attach_url result currentVariants)
       (variants (formData st)) (uploadedResults be st)"

definition handleSubmit :: "Backend \<Rightarrow> Component \<Rightarrow> Database \<Rightarrow> Run" where
  "handleSubmit be st db =
     (let fd = formData st in
      if colors fd \<noteq> [] \<and> variants fd = [] then
        \<lparr> outcome = Rejected, component = st, database = db, calls = [],
          toasts = [ToastError ''Please add at least one variant for your chosen colors''] \<rparr>
      else if pendingFiles st \<noteq> [] then
        (let cs = map (\<lambda>pf. Upload (file_pf pf)) (pendingFiles st);
             ts = [ToastLoading (length (pendingFiles st))]
         in if \<exists>pf \<in> set (pendingFiles st). upload_result be (file_pf pf) = None then
              failed st db cs ts (ErrorObj ''Failed to upload image to Supabase Storage'')
            else
              (let currentVariants = uploaded_variants be st;
                   st1 = st\<lparr>formData := fd\<lparr>variants := currentVariants\<rparr>\<rparr>
               in save_product be st1 db currentVariants cs
                    (ts @ [ToastSuccess ''All images uploaded''])))
      else save_product be st db (variants fd) [] [])"

section \<open>Loading a product into the dialog\<close>

text \<open>
  The details query returns the variant rows of the product, each with the colour it joins
  (\<open>color_obj\<close>: name and hex), if any. The dialog is populated with the rows as the
  draft's variants, the colours found on them (a row without a colour id adds none) and
  their sizes, each once, in the order of first occurrence. The other fields of the draft
  come from the product row; \<open>populate\<close> takes them from \<open>fd\<close>.
\<close>

definition add_color :: "ColorItem list \<Rightarrow> Variant \<times> (string \<times> string) option \<Rightarrow> ColorItem list" where
  "add_color colorsMap row =
     (case row of (v, color_obj) \<Rightarrow>
        if truthy (color_id v) \<and> the (color_id v) \<notin> id_c ` set colorsMap then
          (case color_obj of
             Some (n, h) \<Rightarrow> colorsMap @ [\<lparr> id_c = the (color_id v), name_c = n, hex = h \<rparr>]
           | None \<Rightarrow> colorsMap)
        else colorsMap)"

definition populate :: "FormData \<Rightarrow> (Variant \<times> (string \<times> string) option) list \<Rightarrow> FormData" where
  "populate fd rows =
     fd\<lparr> variants := map fst rows,
         colors := foldl add_color [] rows,
         sizes := rev (remdups (rev (map (\<lambda>row. size_v (fst row)) rows))) \<rparr>"

section \<open>Notions the properties are stated with\<close>

text \<open>The pair a variant stands for, and the pair of a colour of the set with a size.\<close>

definition key :: "Variant \<Rightarrow> string option \<times> string" where
  "key v = (color_id v, size_v v)"

definition pair_key :: "ColorItem \<Rightarrow> string \<Rightarrow> string option \<times> string" where
  "pair_key c s = (Some (id_c c), s)"

text \<open>
  The variant list is the full matrix of the draft's colours and sizes: every pair has
  exactly one variant, and every variant is the variant of a pair.
\<close>

definition full_matrix :: "FormData \<Rightarrow> bool" where
  "full_matrix fd =
     ((\<forall>c \<in> set (colors fd). \<forall>s \<in> set (sizes fd).
         length (filter (\<lambda>v. key v = pair_key c s) (variants fd)) = 1) \<and>
      (\<forall>v \<in> set (variants fd). \<exists>c \<in> set (colors fd). \<exists>s \<in> set (sizes fd).
         key v = pair_key c s))"

text \<open>The same, as the proofs carry it: no pair twice, and the pairs are those of the matrix.\<close>

definition matrix_inv :: "FormData \<Rightarrow> bool" where
  "matrix_inv fd =
     (distinct (map key (variants fd)) \<and>
      key ` set (variants fd) = (\<Union>c\<in>set (colors fd). pair_key c ` set (sizes fd)))"

definition colours_known :: "FormData \<Rightarrow> bool" where
  "colours_known fd = (\<forall>v \<in> set (variants fd). color_id v \<in> Some ` id_c ` set (colors fd))"

definition sizes_known :: "FormData \<Rightarrow> bool" where
  "sizes_known fd = (\<forall>v \<in> set (variants fd). size_v v \<in> set (sizes fd))"

text \<open>A change of the colour set or of the size set, with the random draws of that call.\<close>

datatype update =
    SetColors "nat \<Rightarrow> string" "ColorItem list"
  | SetSizes "nat \<Rightarrow> string" "string list"

fun apply_update :: "FormData \<Rightarrow> update \<Rightarrow> FormData" where
  "apply_update fd (SetColors rnd newColors) = setColors rnd fd newColors"
| "apply_update fd (SetSizes rnd newSizes) = setSizes rnd fd newSizes"

subsection \<open>A draft to run the operations on\<close>

definition red :: ColorItem where
  "red = \<lparr> id_c = ''c-red'', name_c = ''Red'', hex = ''#ff0000'' \<rparr>"

definition blue :: ColorItem where
  "blue = \<lparr> id_c = ''c-blue'', name_c = ''Blue'', hex = ''#0000ff'' \<rparr>"

definition green :: ColorItem where
  "green = \<lparr> id_c = ''c-green'', name_c = ''Green'', hex = ''#00ff00'' \<rparr>"

definition draw :: "nat \<Rightarrow> string" where
  "draw n = ''K3Q9''"

definition example_updates :: "update list" where
  "example_updates =
     [SetColors draw [red, blue], SetSizes draw [''S'', ''M''], SetColors draw [red],
      SetSizes draw [''S'']]"

definition example_variant :: "string \<Rightarrow> string \<Rightarrow> int \<Rightarrow> bool \<Rightarrow> Variant" where
  "example_variant c s n p =
     \<lparr> id_v = None, product_id = None, color_id = Some c, size_v = s, sku_v = c @ ''-'' @ s,
       price_v = Some 20, stock_quantity_v = n, image_urls = [''https://img/'' @ c],
       is_primary = p \<rparr>"

definition example_draft :: FormData where
  "example_draft =
     initialFormData\<lparr> name := ''Shirt'', price := ''19.99'', stock_quantity := ''1'',
       colors := [red, blue], sizes := [''S'', ''M''],
       variants := [example_variant ''c-red'' ''S'' 3 True, example_variant ''c-red'' ''M'' 4 False,
                    example_variant ''c-blue'' ''S'' 5 False, example_variant ''c-blue'' ''M'' 6 False] \<rparr>"

definition backend_ok :: Backend where
  "backend_ok =
     \<lparr> upload_result = (\<lambda>f. Some (''https://cdn/'' @ f)), update_error = None,
       insert_result = Inr ''p-new'', delete_error = None, variants_error = None \<rparr>"

definition example_state :: Component where
  "example_state =
     \<lparr> formData = example_draft,
       pendingFiles = [\<lparr> file_pf = ''a.png'', preview = ''blob:a'', colorId = Some ''c-red'' \<rparr>,
                       \<lparr> file_pf = ''b.png'', preview = ''blob:b'', colorId = Some ''c-blue'' \<rparr>],
       editingProduct = Some ''p-1'', selectedProductId = Some ''p-1'', isDialogOpen = True \<rparr>"

definition example_db :: Database where
  "example_db =
     \<lparr> products = [''p-1'' \<mapsto> productPayload (example_draft\<lparr>name := ''Old shirt''\<rparr>) []],
       product_variants =
         [(example_variant ''c-red'' ''L'' 9 True)\<lparr>id_v := Some ''v-1'', product_id := Some ''p-1''\<rparr>,
          (example_variant ''c-red'' ''S'' 2 True)\<lparr>id_v := Some ''v-2'', product_id := Some ''p-2''\<rparr>] \<rparr>"

text \<open>
  The dialog populated from two rows that are both primary; the dialog with no variant
  flagged; the dialog populated from a row whose colour was deleted from the library
  (\<open>ON DELETE SET NULL\<close>); the dialog with stocks whose sum passes \<open>2^53\<close> on the way;
  a backend whose variant insert fails.
\<close>

definition two_primaries_state :: Component where
  "two_primaries_state =
     example_state\<lparr>pendingFiles := [],
       formData := populate example_draft
         [((example_variant ''c-red'' ''S'' 3 True)\<lparr>id_v := Some ''v-1'', product_id := Some ''p-1''\<rparr>,
           Some (''Red'', ''#ff0000'')),
          ((example_variant ''c-blue'' ''S'' 5 True)\<lparr>id_v := Some ''v-3'', product_id := Some ''p-1''\<rparr>,
           Some (''Blue'', ''#0000ff''))]\<rparr>"

definition no_primary_state :: Component where
  "no_primary_state =
     example_state\<lparr>formData := example_draft\<lparr>variants :=
         [example_variant ''c-red'' ''S'' 3 False, example_variant ''c-red'' ''M'' 4 False,
          example_variant ''c-blue'' ''S'' 5 False, example_variant ''c-blue'' ''M'' 6 False]\<rparr>\<rparr>"

definition orphan_state :: Component where
  "orphan_state =
     example_state\<lparr>pendingFiles := [],
       formData := populate example_draft
         [((example_variant [] ''M'' 7 True)\<lparr>id_v := Some ''v-1'', product_id := Some ''p-1'',
             color_id := None\<rparr>, None)]\<rparr>"

definition big_stock_state :: Component where
  "big_stock_state =
     example_state\<lparr>pendingFiles := [],
       formData := example_draft\<lparr>colors := [red], sizes := [''S'', ''M'', ''L''],
         variants := [example_variant ''c-red'' ''S'' (2 ^ 53) True,
                      example_variant ''c-red'' ''M'' 1 False,
                      example_variant ''c-red'' ''L'' (- (2 ^ 53)) False]\<rparr>\<rparr>"

definition backend_insert_fails :: Backend where
  "backend_insert_fails =
     backend_ok\<lparr>variants_error := Some (ErrorObj ''duplicate key value'')\<rparr>"

subsection \<open>Reading a run\<close>

text \<open>The payloads of the product writes among the calls of a run, in order.\<close>

fun product_writes :: "call list \<Rightarrow> ProductPayload list" where
  "product_writes [] = []"
| "product_writes (UpdateProduct pid p # cs) = p # product_writes cs"
| "product_writes (InsertProduct p # cs) = p # product_writes cs"
| "product_writes (c # cs) = product_writes cs"

text \<open>A call to the database (an upload goes to the object storage).\<close>

fun is_db_call :: "call \<Rightarrow> bool" where
  "is_db_call (Upload f) = False"
| "is_db_call c = True"

fun is_variant_call :: "call \<Rightarrow> bool" where
  "is_variant_call (DeleteVariants pid) = True"
| "is_variant_call (InsertVariants rows) = True"
| "is_variant_call c = False"

text \<open>The variant rows of a product.\<close>

definition rows_of :: "string \<Rightarrow> Database \<Rightarrow> Variant list" where
  "rows_of pid db = filter (\<lambda>r. product_id r = Some pid) (product_variants db)"

text \<open>The rows handleSubmit inserts for a product: the list after the uploads, a primary forced.\<close>

definition variantsToInsert :: "Backend \<Rightarrow> Component \<Rightarrow> string \<Rightarrow> Variant list" where
  "variantsToInsert be st pid =
     map (\<lambda>v. v\<lparr>id_v := None, product_id := Some pid\<rparr>) (force_primary (uploaded_variants be st))"

text \<open>
  The exact sum of the stock of a list, and the condition under which the doubles carry it:
  summed from the left, no partial sum is larger than \<open>2^53\<close> in size.
\<close>

definition total_stock :: "Variant list \<Rightarrow> int" where
  "total_stock vs = sum_list (map stock_quantity_v vs)"

definition exact_partial_sums :: "Variant list \<Rightarrow> bool" where
  "exact_partial_sums vs =
     (\<forall>k \<in> set [0..<Suc (length vs)]. \<bar>total_stock (take k vs)\<bar> \<le> 2 ^ 53)"

text \<open>The sum as the handler computes it: \<open>reduce\<close> from \<open>0\<close>, rounding at every step.\<close>

definition reduce_stock :: "Variant list \<Rightarrow> number" where
  "reduce_stock vs = foldl (\<lambda>acc v. js_add acc (stock_quantity_v v)) (Num 0) vs"

text \<open>How many variants of a list are flagged primary.\<close>

definition primaries :: "Variant list \<Rightarrow> nat" where
  "primaries vs = length (filter is_primary vs)"

section \<open>The variant matrix is kept\<close>

lemma key_new_variant: "key (new_variant p c s x) = pair_key c s"
  by (simp add: key_def new_variant_def pair_key_def)

lemma ensure_variant_if:
  "ensure_variant rnd p c s vs =
     (if pair_key c s \<in> key ` set vs then vs
      else vs @ [new_variant p c s (rnd (length vs))])"
proof (cases "List.find (\<lambda>v. color_id v = Some (id_c c) \<and> size_v v = s) vs")
  case None
  then have "pair_key c s \<notin> key ` set vs"
    by (auto simp: find_None_iff key_def pair_key_def)
  with None show ?thesis by (simp add: ensure_variant_def)
next
  case (Some v)
  then have "pair_key c s \<in> key ` set vs"
    by (force simp: find_Some_iff key_def pair_key_def in_set_conv_nth)
  with Some show ?thesis by (simp add: ensure_variant_def)
qed

lemma keys_ensure:
  "key ` set (ensure_variant rnd p c s vs) = insert (pair_key c s) (key ` set vs)"
  by (auto simp: ensure_variant_if key_new_variant)

lemma distinct_ensure:
  "distinct (map key vs) \<Longrightarrow> distinct (map key (ensure_variant rnd p c s vs))"
  by (auto simp: ensure_variant_if key_new_variant)

lemma keys_fold_colors:
  "key ` set (foldl (\<lambda>vs c. ensure_variant rnd p c s vs) vs cs) =
     key ` set vs \<union> (\<lambda>c. pair_key c s) ` set cs"
  by (induction cs arbitrary: vs) (auto simp: keys_ensure)

lemma distinct_fold_colors:
  "distinct (map key vs) \<Longrightarrow>
   distinct (map key (foldl (\<lambda>vs c. ensure_variant rnd p c s vs) vs cs))"
  by (induction cs arbitrary: vs) (auto simp: distinct_ensure)

lemma keys_fold_sizes:
  "key ` set (foldl (\<lambda>vs s. ensure_variant rnd p c s vs) vs ss) =
     key ` set vs \<union> pair_key c ` set ss"
  by (induction ss arbitrary: vs) (auto simp: keys_ensure)

lemma distinct_fold_sizes:
  "distinct (map key vs) \<Longrightarrow>
   distinct (map key (foldl (\<lambda>vs s. ensure_variant rnd p c s vs) vs ss))"
  by (induction ss arbitrary: vs) (auto simp: distinct_ensure)

lemma keys_loop_sizes:
  "key ` set (foldl (\<lambda>vs s. foldl (\<lambda>vs c. ensure_variant rnd p c s vs) vs cs) vs ss) =
     key ` set vs \<union> (\<Union>s\<in>set ss. (\<lambda>c. pair_key c s) ` set cs)"
  by (induction ss arbitrary: vs) (auto simp: keys_fold_colors)

lemma distinct_loop_sizes:
  "distinct (map key vs) \<Longrightarrow>
   distinct (map key (foldl (\<lambda>vs s. foldl (\<lambda>vs c. ensure_variant rnd p c s vs) vs cs) vs ss))"
  by (induction ss arbitrary: vs) (auto simp: distinct_fold_colors)

lemma keys_loop_colors:
  "key ` set (foldl (\<lambda>vs c. foldl (\<lambda>vs s. ensure_variant rnd p c s vs) vs ss) vs cs) =
     key ` set vs \<union> (\<Union>c\<in>set cs. pair_key c ` set ss)"
  by (induction cs arbitrary: vs) (auto simp: keys_fold_sizes)

lemma distinct_loop_colors:
  "distinct (map key vs) \<Longrightarrow>
   distinct (map key (foldl (\<lambda>vs c. foldl (\<lambda>vs s. ensure_variant rnd p c s vs) vs ss) vs cs))"
  by (induction cs arbitrary: vs) (auto simp: distinct_fold_sizes)

lemma matrix_keys:
  "set (concat (map (\<lambda>c. map (pair_key c) ss) cs)) = (\<Union>c\<in>set cs. pair_key c ` set ss)"
  by auto

lemma setSizes_matrix_inv:
  assumes "distinct (map key (variants prev))" and "colours_known prev"
  shows "matrix_inv (setSizes rnd prev newSizes)"
proof -
  let ?f = "filter (\<lambda>v. size_v v \<in> set newSizes) (variants prev)"
  have d: "distinct (map key ?f)" using assms(1) by (simp add: distinct_map_filter)
  have sub: "key ` set ?f \<subseteq> (\<Union>c\<in>set (colors prev). pair_key c ` set newSizes)"
  proof
    fix k assume "k \<in> key ` set ?f"
    then obtain v where v: "v \<in> set (variants prev)" "size_v v \<in> set newSizes" "k = key v"
      by auto
    from assms(2) v(1) obtain c where "c \<in> set (colors prev)" "color_id v = Some (id_c c)"
      by (auto simp: colours_known_def)
    with v show "k \<in> (\<Union>c\<in>set (colors prev). pair_key c ` set newSizes)"
      by (auto simp: key_def pair_key_def)
  qed
  have eq: "(\<Union>s\<in>set newSizes. (\<lambda>c. pair_key c s) ` set (colors prev)) =
        (\<Union>c\<in>set (colors prev). pair_key c ` set newSizes)" by auto
  show ?thesis
    unfolding matrix_inv_def setSizes_def Let_def
    using sub by (simp add: distinct_loop_sizes d keys_loop_sizes eq Un_absorb1)
qed

lemma setColors_matrix_inv:
  assumes "distinct (map key (variants prev))" and "sizes_known prev"
  shows "matrix_inv (setColors rnd prev newColors)"
proof -
  let ?f = "filter (\<lambda>v. truthy (color_id v) \<and> the (color_id v) \<in> set (map id_c newColors))
              (variants prev)"
  have d: "distinct (map key ?f)" using assms(1) by (simp add: distinct_map_filter)
  have sub: "key ` set ?f \<subseteq> (\<Union>c\<in>set newColors. pair_key c ` set (sizes prev))"
  proof
    fix k assume "k \<in> key ` set ?f"
    then obtain v where v: "v \<in> set (variants prev)" "truthy (color_id v)"
        "the (color_id v) \<in> id_c ` set newColors" "k = key v"
      by auto
    from v(2) obtain i where i: "color_id v = Some i" by (auto simp: truthy_def split: option.splits)
    with v(3) obtain c where "c \<in> set newColors" "i = id_c c" by auto
    moreover from assms(2) v(1) have "size_v v \<in> set (sizes prev)" by (simp add: sizes_known_def)
    ultimately show "k \<in> (\<Union>c\<in>set newColors. pair_key c ` set (sizes prev))"
      using v(4) i by (auto simp: key_def pair_key_def)
  qed
  show ?thesis
    unfolding matrix_inv_def setColors_def Let_def
    using sub d by (simp add: distinct_loop_colors keys_loop_colors Un_absorb1)
qed

lemma matrix_inv_known:
  assumes "matrix_inv fd"
  shows "colours_known fd" and "sizes_known fd"
proof -
  have *: "\<exists>c \<in> set (colors fd). \<exists>s \<in> set (sizes fd). key v = pair_key c s"
    if "v \<in> set (variants fd)" for v
  proof -
    from that have "key v \<in> key ` set (variants fd)" by simp
    with assms have "key v \<in> (\<Union>c\<in>set (colors fd). pair_key c ` set (sizes fd))"
      by (simp add: matrix_inv_def)
    then show ?thesis by auto
  qed
  show "colours_known fd"
    unfolding colours_known_def
  proof
    fix v assume "v \<in> set (variants fd)"
    from *[OF this] show "color_id v \<in> Some ` id_c ` set (colors fd)"
      by (auto simp: key_def pair_key_def)
  qed
  show "sizes_known fd"
    unfolding sizes_known_def
  proof
    fix v assume "v \<in> set (variants fd)"
    from *[OF this] show "size_v v \<in> set (sizes fd)"
      by (auto simp: key_def pair_key_def)
  qed
qed

lemma length_filter_key:
  "distinct (map f xs) \<Longrightarrow> k \<in> f ` set xs \<Longrightarrow> length (filter (\<lambda>v. f v = k) xs) = 1"
proof (induction xs)
  case Nil
  then show ?case by simp
next
  case (Cons x xs)
  show ?case
  proof (cases "f x = k")
    case True
    from Cons.prems(1) have "f x \<notin> f ` set xs" by simp
    with True have "\<forall>v \<in> set xs. f v \<noteq> k" by blast
    then have "filter (\<lambda>v. f v = k) xs = []"
      by (simp add: filter_empty_conv)
    with True show ?thesis by simp
  next
    case False
    with Cons show ?thesis by auto
  qed
qed

lemma matrix_inv_full:
  assumes "matrix_inv fd"
  shows "full_matrix fd"
proof -
  from assms have d: "distinct (map key (variants fd))"
    and k: "key ` set (variants fd) = (\<Union>c\<in>set (colors fd). pair_key c ` set (sizes fd))"
    by (simp_all add: matrix_inv_def)
  have "length (filter (\<lambda>v. key v = pair_key c s) (variants fd)) = 1"
    if "c \<in> set (colors fd)" "s \<in> set (sizes fd)" for c s
  proof -
    from that have "pair_key c s \<in> key ` set (variants fd)" unfolding k by blast
    with d show ?thesis by (rule length_filter_key)
  qed
  moreover have "\<exists>c \<in> set (colors fd). \<exists>s \<in> set (sizes fd). key v = pair_key c s"
    if "v \<in> set (variants fd)" for v
  proof -
    from that have "key v \<in> (\<Union>c\<in>set (colors fd). pair_key c ` set (sizes fd))"
      unfolding k[symmetric] by simp
    then show ?thesis by auto
  qed
  ultimately show ?thesis by (simp add: full_matrix_def)
qed

lemma matrix_inv_step:
  assumes "distinct (map key (variants fd))" "colours_known fd" "sizes_known fd"
  shows "matrix_inv (apply_update fd u)"
  using assms by (cases u) (simp_all add: setColors_matrix_inv setSizes_matrix_inv)

lemma matrix_inv_updates: "matrix_inv fd \<Longrightarrow> matrix_inv (foldl apply_update fd us)"
proof (induction us arbitrary: fd)
  case Nil
  then show ?case by simp
next
  case (Cons u us)
  from Cons.prems have "matrix_inv (apply_update fd u)"
    by (intro matrix_inv_step matrix_inv_known) (simp add: matrix_inv_def)
  then show ?case using Cons.IH by simp
qed

lemma full_matrix_empty:
  "full_matrix fd \<Longrightarrow> colors fd = [] \<or> sizes fd = [] \<Longrightarrow> variants fd = []"
  by (cases "variants fd") (auto simp: full_matrix_def)

text \<open>
  Claim C1. Take a draft with an empty variant list and apply any sequence of colour-set
  and size-set changes. Afterwards every pair of a colour of the current colour set and a
  size of the current size set has exactly one variant and there is no other variant; when
  the colour set or the size set is empty, the variant list is empty. (A draft starts with
  no colours and no sizes, see \<open>resetForm\<close> and \<open>handleOpenEdit\<close>; the statement also
  covers a start with colours or sizes present, from the first change on.)
\<close>

theorem matrix_after_updates:
  assumes "variants fd0 = []" and "colors fd0 = [] \<or> sizes fd0 = [] \<or> us \<noteq> []"
  shows "full_matrix (foldl apply_update fd0 us) \<and>
         (colors (foldl apply_update fd0 us) = [] \<or> sizes (foldl apply_update fd0 us) = []
            \<longrightarrow> variants (foldl apply_update fd0 us) = [])"
proof -
  have "matrix_inv (foldl apply_update fd0 us)"
  proof (cases us)
    case Nil
    with assms have "matrix_inv fd0" by (auto simp: matrix_inv_def)
    with Nil show ?thesis by simp
  next
    case (Cons u us')
    from assms(1) have "matrix_inv (apply_update fd0 u)"
      by (intro matrix_inv_step) (simp_all add: colours_known_def sizes_known_def)
    then have "matrix_inv (foldl apply_update (apply_update fd0 u) us')"
      by (rule matrix_inv_updates)
    with Cons show ?thesis by simp
  qed
  then have "full_matrix (foldl apply_update fd0 us)" by (rule matrix_inv_full)
  then show ?thesis using full_matrix_empty by blast
qed

theorem matrix_after_updates_witness:
  "variants initialFormData = [] \<and> colors initialFormData = [] \<and>
   full_matrix (foldl apply_update initialFormData example_updates) \<and>
   variants (foldl apply_update initialFormData (take 1 example_updates)) = [] \<and>
   map key (variants (foldl apply_update initialFormData (take 2 example_updates))) =
     [(Some ''c-red'', ''S''), (Some ''c-blue'', ''S''), (Some ''c-red'', ''M''),
      (Some ''c-blue'', ''M'')] \<and>
   map key (variants (foldl apply_update initialFormData example_updates)) =
     [(Some ''c-red'', ''S'')]"
proof -
  have h1: "variants initialFormData = []" and c: "colors initialFormData = []"
    by (simp_all add: initialFormData_def)
  from c have h2: "colors initialFormData = [] \<or> sizes initialFormData = [] \<or>
      example_updates \<noteq> []" by simp
  from matrix_after_updates[OF h1 h2]
  have "full_matrix (foldl apply_update initialFormData example_updates)" by blast
  moreover have "variants (foldl apply_update initialFormData (take 1 example_updates)) = []"
    by code_simp
  moreover have
    "map key (variants (foldl apply_update initialFormData (take 2 example_updates))) =
       [(Some ''c-red'', ''S''), (Some ''c-blue'', ''S''), (Some ''c-red'', ''M''),
        (Some ''c-blue'', ''M'')]"
    by code_simp
  moreover have
    "map key (variants (foldl apply_update initialFormData example_updates)) =
       [(Some ''c-red'', ''S'')]"
    by code_simp
  ultimately show ?thesis using h1 c by simp
qed

lemma fold_colors_noop:
  "\<forall>c \<in> set cs. pair_key c s \<in> key ` set vs \<Longrightarrow>
   foldl (\<lambda>vs c. ensure_variant rnd p c s vs) vs cs = vs"
  by (induction cs) (simp_all add: ensure_variant_if)

lemma fold_sizes_noop:
  "\<forall>s \<in> set ss. pair_key c s \<in> key ` set vs \<Longrightarrow>
   foldl (\<lambda>vs s. ensure_variant rnd p c s vs) vs ss = vs"
  by (induction ss) (simp_all add: ensure_variant_if)

lemma loop_sizes_noop:
  "\<forall>s \<in> set ss. \<forall>c \<in> set cs. pair_key c s \<in> key ` set vs \<Longrightarrow>
   foldl (\<lambda>vs s. foldl (\<lambda>vs c. ensure_variant rnd p c s vs) vs cs) vs ss = vs"
  by (induction ss) (simp_all add: fold_colors_noop)

lemma loop_colors_noop:
  "\<forall>c \<in> set cs. \<forall>s \<in> set ss. pair_key c s \<in> key ` set vs \<Longrightarrow>
   foldl (\<lambda>vs c. foldl (\<lambda>vs s. ensure_variant rnd p c s vs) vs ss) vs cs = vs"
  by (induction cs) (simp_all add: fold_sizes_noop)

lemma full_matrix_covered:
  assumes "full_matrix fd" "c \<in> set (colors fd)" "s \<in> set (sizes fd)"
  shows "\<exists>v \<in> set (variants fd). key v = pair_key c s"
proof -
  from assms have "length (filter (\<lambda>v. key v = pair_key c s) (variants fd)) = 1"
    by (simp add: full_matrix_def)
  then have "filter (\<lambda>v. key v = pair_key c s) (variants fd) \<noteq> []" by auto
  then show ?thesis by (simp add: filter_empty_conv)
qed

lemma full_matrix_member:
  assumes "full_matrix fd" "v \<in> set (variants fd)"
  shows "\<exists>c \<in> set (colors fd). \<exists>s \<in> set (sizes fd). key v = pair_key c s"
  using assms by (simp add: full_matrix_def)

text \<open>
  Claim C2. On a full matrix, setSizes with the size set less one size \<open>s\<close> returns the
  variant list without the variants of size \<open>s\<close>: the others stay, in their order and with
  every field as it was, and no variant is added.
\<close>

theorem setSizes_remove_size:
  assumes "full_matrix prev" and "set newSizes = set (sizes prev) - {s}"
  shows "variants (setSizes rnd prev newSizes) = filter (\<lambda>v. size_v v \<noteq> s) (variants prev)"
proof -
  let ?f = "filter (\<lambda>v. size_v v \<in> set newSizes) (variants prev)"
  have f: "?f = filter (\<lambda>v. size_v v \<noteq> s) (variants prev)"
  proof (rule filter_cong[OF refl])
    fix v assume "v \<in> set (variants prev)"
    from full_matrix_member[OF assms(1) this] have "size_v v \<in> set (sizes prev)"
      by (auto simp: key_def pair_key_def)
    with assms(2) show "(size_v v \<in> set newSizes) = (size_v v \<noteq> s)" by auto
  qed
  have "\<forall>s' \<in> set newSizes. \<forall>c \<in> set (colors prev). pair_key c s' \<in> key ` set ?f"
  proof (intro ballI)
    fix s' c assume s': "s' \<in> set newSizes" and c: "c \<in> set (colors prev)"
    from s' assms(2) have "s' \<in> set (sizes prev)" by auto
    from full_matrix_covered[OF assms(1) c this]
    obtain v where v: "v \<in> set (variants prev)" "key v = pair_key c s'" by auto
    then have "size_v v = s'" by (simp add: key_def pair_key_def)
    with s' v show "pair_key c s' \<in> key ` set ?f" by force
  qed
  then have "foldl (\<lambda>vs sz. foldl (\<lambda>vs colorObj. ensure_variant rnd (sku prev) colorObj sz vs)
               vs (colors prev)) ?f newSizes = ?f"
    by (rule loop_sizes_noop)
  then show ?thesis by (simp add: setSizes_def Let_def f)
qed

theorem setSizes_remove_size_witness:
  "full_matrix example_draft \<and> set [''S''] = set (sizes example_draft) - {''M''} \<and>
   variants (setSizes draw example_draft [''S'']) =
     [example_variant ''c-red'' ''S'' 3 True, example_variant ''c-blue'' ''S'' 5 False]"
proof -
  have h1: "full_matrix example_draft" by code_simp
  have h2: "set [''S''] = set (sizes example_draft) - {''M''}"
    by (auto simp: example_draft_def)
  have "filter (\<lambda>v. size_v v \<noteq> ''M'') (variants example_draft) =
      [example_variant ''c-red'' ''S'' 3 True, example_variant ''c-blue'' ''S'' 5 False]"
    by (simp add: example_draft_def example_variant_def)
  with setSizes_remove_size[OF h1 h2, of draw] h1 h2 show ?thesis by simp
qed

lemma fold_sizes_new:
  "distinct ss \<Longrightarrow> \<forall>s \<in> set ss. pair_key c s \<notin> key ` set vs \<Longrightarrow>
   foldl (\<lambda>vs s. ensure_variant rnd p c s vs) vs ss =
     vs @ map (\<lambda>(i, s). new_variant p c s (rnd i)) (enumerate (length vs) ss)"
proof (induction ss arbitrary: vs)
  case Nil
  then show ?case by simp
next
  case (Cons s ss)
  let ?vs = "vs @ [new_variant p c s (rnd (length vs))]"
  from Cons.prems have e: "ensure_variant rnd p c s vs = ?vs"
    by (simp add: ensure_variant_if)
  have "\<forall>s' \<in> set ss. pair_key c s' \<notin> key ` set ?vs"
    using Cons.prems by (auto simp: key_new_variant pair_key_def)
  with Cons.prems(1) have "foldl (\<lambda>vs s. ensure_variant rnd p c s vs) ?vs ss =
     ?vs @ map (\<lambda>(i, s). new_variant p c s (rnd i)) (enumerate (length ?vs) ss)"
    by (intro Cons.IH) simp_all
  with e show ?case by simp
qed

lemma new_variant_fields:
  "color_id (new_variant p c s x) = Some (id_c c)"
  "size_v (new_variant p c s x) = s"
  "price_v (new_variant p c s x) = None"
  "stock_quantity_v (new_variant p c s x) = 0"
  "image_urls (new_variant p c s x) = []"
  "is_primary (new_variant p c s x) = False"
  by (simp_all add: new_variant_def)

text \<open>
  With a duplicate-free size list the new variants come in the order of the sizes, each
  with the SKU built from its own draw.
\<close>

lemma setColors_add_color_eq:
  assumes fm: "full_matrix prev" and ds: "distinct (sizes prev)"
    and cs: "colors prev = cs1 @ cs2"
    and new: "id_c c \<notin> id_c ` set (colors prev)"
    and ne: "\<forall>c' \<in> set (colors prev). id_c c' \<noteq> []"
  shows "variants (setColors rnd prev (cs1 @ c # cs2)) =
           variants prev @
           map (\<lambda>(i, s). new_variant (sku prev) c s (rnd i))
             (enumerate (length (variants prev)) (sizes prev))"
proof -
  let ?vs = "variants prev"
  let ?news = "map (\<lambda>(i, s). new_variant (sku prev) c s (rnd i))
                 (enumerate (length ?vs) (sizes prev))"
  let ?body = "\<lambda>vs colorObj. foldl (\<lambda>vs sz. ensure_variant rnd (sku prev) colorObj sz vs)
                 vs (sizes prev)"
  have keep: "filter (\<lambda>v. truthy (color_id v) \<and> the (color_id v) \<in> set (map id_c (cs1 @ c # cs2))) ?vs
                = ?vs"
  proof (rule filter_True, intro ballI)
    fix v assume "v \<in> set ?vs"
    from full_matrix_member[OF fm this] obtain c' where c': "c' \<in> set (colors prev)"
      and "color_id v = Some (id_c c')" by (auto simp: key_def pair_key_def)
    with ne cs show "truthy (color_id v) \<and> the (color_id v) \<in> set (map id_c (cs1 @ c # cs2))"
      by (auto simp: truthy_def)
  qed
  have cov: "\<forall>c' \<in> set (colors prev). \<forall>s \<in> set (sizes prev). pair_key c' s \<in> key ` set ?vs"
    using full_matrix_covered[OF fm] by (metis imageI)
  have fresh: "\<forall>s \<in> set (sizes prev). pair_key c s \<notin> key ` set ?vs"
  proof (intro ballI notI)
    fix s assume "pair_key c s \<in> key ` set ?vs"
    then obtain v where v: "v \<in> set ?vs" "key v = pair_key c s" by auto
    from full_matrix_member[OF fm v(1)] obtain c' where "c' \<in> set (colors prev)"
      and "color_id v = Some (id_c c')" by (auto simp: key_def pair_key_def)
    with v(2) have "id_c c = id_c c'" by (simp add: key_def pair_key_def)
    with \<open>c' \<in> set (colors prev)\<close> new show False by blast
  qed
  have 1: "foldl ?body ?vs cs1 = ?vs"
    using cov cs by (intro loop_colors_noop) simp
  have 2: "?body ?vs c = ?vs @ ?news"
    using ds fresh by (rule fold_sizes_new)
  have "\<forall>c' \<in> set cs2. \<forall>s \<in> set (sizes prev). pair_key c' s \<in> key ` set (?vs @ ?news)"
  proof (intro ballI)
    fix c' s assume "c' \<in> set cs2" "s \<in> set (sizes prev)"
    with cov cs have "pair_key c' s \<in> key ` set ?vs" by simp
    then show "pair_key c' s \<in> key ` set (?vs @ ?news)" by (simp add: image_Un)
  qed
  then have 3: "foldl ?body (?vs @ ?news) cs2 = ?vs @ ?news"
    by (rule loop_colors_noop)
  have "foldl ?body ?vs (cs1 @ c # cs2) = ?vs @ ?news"
    by (simp only: foldl_append foldl_Cons 1 2 3)
  then show ?thesis
    unfolding setColors_def Let_def using keep by simp
qed

lemma fold_sizes_appends:
  "\<exists>news. foldl (\<lambda>vs s. ensure_variant rnd p c s vs) vs ss = vs @ news \<and>
     (\<forall>v \<in> set news. color_id v = Some (id_c c) \<and> stock_quantity_v v = 0 \<and>
        price_v v = None \<and> image_urls v = [] \<and> \<not> is_primary v) \<and>
     distinct (map size_v news) \<and>
     set (map size_v news) = {s \<in> set ss. pair_key c s \<notin> key ` set vs}"
proof (induction ss arbitrary: vs)
  case Nil
  then show ?case by simp
next
  case (Cons s ss)
  show ?case
  proof (cases "pair_key c s \<in> key ` set vs")
    case True
    from Cons.IH[of vs] obtain news where
      "foldl (\<lambda>vs s. ensure_variant rnd p c s vs) vs ss = vs @ news"
      "\<forall>v \<in> set news. color_id v = Some (id_c c) \<and> stock_quantity_v v = 0 \<and>
        price_v v = None \<and> image_urls v = [] \<and> \<not> is_primary v"
      "distinct (map size_v news)"
      "set (map size_v news) = {s \<in> set ss. pair_key c s \<notin> key ` set vs}"
      by blast
    moreover from True have "{s' \<in> set ss. pair_key c s' \<notin> key ` set vs} =
        {s' \<in> set (s # ss). pair_key c s' \<notin> key ` set vs}" by auto
    ultimately show ?thesis using True
      by (intro exI[of _ news]) (simp add: ensure_variant_if)
  next
    case False
    let ?nv = "new_variant p c s (rnd (length vs))"
    from Cons.IH[of "vs @ [?nv]"] obtain news where n:
      "foldl (\<lambda>vs s. ensure_variant rnd p c s vs) (vs @ [?nv]) ss = (vs @ [?nv]) @ news"
      "\<forall>v \<in> set news. color_id v = Some (id_c c) \<and> stock_quantity_v v = 0 \<and>
        price_v v = None \<and> image_urls v = [] \<and> \<not> is_primary v"
      "distinct (map size_v news)"
      "set (map size_v news) = {s' \<in> set ss. pair_key c s' \<notin> key ` set (vs @ [?nv])}"
      by blast
    have k: "key ` set (vs @ [?nv]) = insert (pair_key c s) (key ` set vs)"
      by (simp add: key_new_variant)
    have sz: "set (map size_v news) = {s' \<in> set ss. pair_key c s' \<notin> key ` set vs \<and> s' \<noteq> s}"
      unfolding n(4) k by (auto simp: pair_key_def)
    have "set (map size_v (?nv # news)) = {s' \<in> set (s # ss). pair_key c s' \<notin> key ` set vs}"
      using False sz by (auto simp: new_variant_fields)
    moreover have "distinct (map size_v (?nv # news))"
      using n(3) sz by (auto simp: new_variant_fields)
    moreover have "\<forall>v \<in> set (?nv # news). color_id v = Some (id_c c) \<and> stock_quantity_v v = 0 \<and>
        price_v v = None \<and> image_urls v = [] \<and> \<not> is_primary v"
      using n(2) by (simp add: new_variant_fields)
    moreover have "foldl (\<lambda>vs s. ensure_variant rnd p c s vs) vs (s # ss) = vs @ (?nv # news)"
      using False n(1) by (simp add: ensure_variant_if)
    ultimately show ?thesis by blast
  qed
qed

lemma setColors_add_color_appends:
  assumes fm: "full_matrix prev"
    and cs: "colors prev = cs1 @ cs2"
    and new: "id_c c \<notin> id_c ` set (colors prev)"
    and ne: "\<forall>c' \<in> set (colors prev). id_c c' \<noteq> []"
  shows "\<exists>news. variants (setColors rnd prev (cs1 @ c # cs2)) = variants prev @ news \<and>
     (\<forall>v \<in> set news. color_id v = Some (id_c c) \<and> stock_quantity_v v = 0 \<and>
        price_v v = None \<and> image_urls v = [] \<and> \<not> is_primary v) \<and>
     distinct (map size_v news) \<and> set (map size_v news) = set (sizes prev)"
proof -
  let ?vs = "variants prev"
  let ?body = "\<lambda>vs colorObj. foldl (\<lambda>vs sz. ensure_variant rnd (sku prev) colorObj sz vs)
                 vs (sizes prev)"
  have keep: "filter (\<lambda>v. truthy (color_id v) \<and> the (color_id v) \<in> set (map id_c (cs1 @ c # cs2))) ?vs
                = ?vs"
  proof (rule filter_True, intro ballI)
    fix v assume "v \<in> set ?vs"
    from full_matrix_member[OF fm this] obtain c' where c': "c' \<in> set (colors prev)"
      and "color_id v = Some (id_c c')" by (auto simp: key_def pair_key_def)
    with ne cs show "truthy (color_id v) \<and> the (color_id v) \<in> set (map id_c (cs1 @ c # cs2))"
      by (auto simp: truthy_def)
  qed
  have cov: "\<forall>c' \<in> set (colors prev). \<forall>s \<in> set (sizes prev). pair_key c' s \<in> key ` set ?vs"
    using full_matrix_covered[OF fm] by (metis imageI)
  have fresh: "\<forall>s \<in> set (sizes prev). pair_key c s \<notin> key ` set ?vs"
  proof (intro ballI notI)
    fix s assume "pair_key c s \<in> key ` set ?vs"
    then obtain v where v: "v \<in> set ?vs" "key v = pair_key c s" by auto
    from full_matrix_member[OF fm v(1)] obtain c' where "c' \<in> set (colors prev)"
      and "color_id v = Some (id_c c')" by (auto simp: key_def pair_key_def)
    with v(2) have "id_c c = id_c c'" by (simp add: key_def pair_key_def)
    with \<open>c' \<in> set (colors prev)\<close> new show False by blast
  qed
  from fold_sizes_appends[of rnd "sku prev" c ?vs "sizes prev"] obtain news where n:
    "?body ?vs c = ?vs @ news"
    "\<forall>v \<in> set news. color_id v = Some (id_c c) \<and> stock_quantity_v v = 0 \<and>
        price_v v = None \<and> image_urls v = [] \<and> \<not> is_primary v"
    "distinct (map size_v news)"
    "set (map size_v news) = {s \<in> set (sizes prev). pair_key c s \<notin> key ` set ?vs}"
    by blast
  from n(4) fresh have sz: "set (map size_v news) = set (sizes prev)" by auto
  have 1: "foldl ?body ?vs cs1 = ?vs"
    using cov cs by (intro loop_colors_noop) simp
  have "\<forall>c' \<in> set cs2. \<forall>s \<in> set (sizes prev). pair_key c' s \<in> key ` set (?vs @ news)"
  proof (intro ballI)
    fix c' s assume "c' \<in> set cs2" "s \<in> set (sizes prev)"
    with cov cs have "pair_key c' s \<in> key ` set ?vs" by simp
    then show "pair_key c' s \<in> key ` set (?vs @ news)" by (simp add: image_Un)
  qed
  then have 3: "foldl ?body (?vs @ news) cs2 = ?vs @ news"
    by (rule loop_colors_noop)
  have "foldl ?body ?vs (cs1 @ c # cs2) = ?vs @ news"
    by (simp only: foldl_append foldl_Cons 1 n(1) 3)
  then have "variants (setColors rnd prev (cs1 @ c # cs2)) = ?vs @ news"
    unfolding setColors_def Let_def using keep by simp
  with n(2,3) sz show ?thesis by blast
qed

text \<open>
  Claim C3. On a full matrix, setColors with one colour added to the colour set (anywhere
  in the list; its id is not among the present ones) appends one new variant per size of
  the size set: as many as there are sizes, each of the new colour, with stock 0, no price
  override, no image and not primary. The variants that were there stay in front,
  unchanged. Colour ids are database keys (UUIDs), so none of the present ones is the
  empty string, which the filter's guard would take for a missing colour.
\<close>

theorem setColors_add_color:
  assumes "full_matrix prev"
    and "colors prev = cs1 @ cs2"
    and "id_c c \<notin> id_c ` set (colors prev)"
    and "\<forall>c' \<in> set (colors prev). id_c c' \<noteq> []"
  shows "let vs = variants prev; vs' = variants (setColors rnd prev (cs1 @ c # cs2));
             news = drop (length vs) vs' in
           length vs' = length vs + card (set (sizes prev)) \<and>
           take (length vs) vs' = vs \<and>
           distinct (map size_v news) \<and> set (map size_v news) = set (sizes prev) \<and>
           (\<forall>v \<in> set news.
              color_id v = Some (id_c c) \<and> stock_quantity_v v = 0 \<and> price_v v = None \<and>
              image_urls v = [] \<and> \<not> is_primary v)"
proof -
  from setColors_add_color_appends[OF assms, of rnd] obtain news where n:
    "variants (setColors rnd prev (cs1 @ c # cs2)) = variants prev @ news"
    "\<forall>v \<in> set news. color_id v = Some (id_c c) \<and> stock_quantity_v v = 0 \<and>
        price_v v = None \<and> image_urls v = [] \<and> \<not> is_primary v"
    "distinct (map size_v news)" "set (map size_v news) = set (sizes prev)"
    by blast
  from n(3,4) have "length news = card (set (sizes prev))"
    by (metis distinct_card length_map)
  with n show ?thesis by (simp add: Let_def)
qed

theorem setColors_add_color_witness:
  "full_matrix example_draft \<and> colors example_draft = [red] @ [blue] \<and>
   id_c green \<notin> id_c ` set (colors example_draft) \<and>
   length (variants (setColors draw example_draft ([red] @ green # [blue]))) = 6 \<and>
   take 4 (variants (setColors draw example_draft ([red] @ green # [blue]))) =
     variants example_draft \<and>
   drop 4 (variants (setColors draw example_draft ([red] @ green # [blue]))) =
     [new_variant [] green ''S'' ''K3Q9'', new_variant [] green ''M'' ''K3Q9'']"
proof -
  have h1: "full_matrix example_draft" by code_simp
  have h3: "colors example_draft = [red] @ [blue]" by (simp add: example_draft_def)
  have h4: "id_c green \<notin> id_c ` set (colors example_draft)"
    by (simp add: example_draft_def red_def blue_def green_def)
  have h5: "\<forall>c' \<in> set (colors example_draft). id_c c' \<noteq> []"
    by (simp add: example_draft_def red_def blue_def)
  have l: "length (variants example_draft) = 4" "card (set (sizes example_draft)) = 2"
    by (simp_all add: example_draft_def)
  from setColors_add_color[OF h1 h3 h4 h5, of draw]
  have "length (variants (setColors draw example_draft ([red] @ green # [blue]))) = 6"
    "take 4 (variants (setColors draw example_draft ([red] @ green # [blue]))) =
       variants example_draft"
    by (simp_all add: Let_def l)
  moreover have "drop 4 (variants (setColors draw example_draft ([red] @ green # [blue]))) =
     [new_variant [] green ''S'' ''K3Q9'', new_variant [] green ''M'' ''K3Q9'']"
    by code_simp
  ultimately show ?thesis using h1 h3 h4 by simp
qed

section \<open>One primary colour\<close>

lemma findIndex_from_range:
  "findIndex_from P xs k = -1 \<or> k \<le> findIndex_from P xs k"
proof (induction xs arbitrary: k)
  case Nil
  then show ?case by simp
next
  case (Cons x xs)
  from Cons.IH[of "k + 1"] show ?case by auto
qed

lemma findIndex_from_first:
  assumes "0 \<le> k" and "i < length xs"
  shows "(findIndex_from P xs k = k + int i) = (P (xs ! i) \<and> (\<forall>j<i. \<not> P (xs ! j)))"
  using assms
proof (induction xs arbitrary: k i)
  case Nil
  then show ?case by simp
next
  case (Cons x xs)
  show ?case
  proof (cases "P x")
    case True
    then show ?thesis by (cases i) auto
  next
    case False
    show ?thesis
    proof (cases i)
      case 0
      from findIndex_from_range[of P xs "k + 1"] Cons.prems(1)
      have "findIndex_from P xs (k + 1) \<noteq> k" by auto
      with False 0 show ?thesis by simp
    next
      case (Suc i')
      with Cons.prems have "(findIndex_from P xs (k + 1) = (k + 1) + int i') =
          (P (xs ! i') \<and> (\<forall>j<i'. \<not> P (xs ! j)))"
        by (intro Cons.IH) simp_all
      moreover have "(\<forall>j<Suc i'. \<not> P ((x # xs) ! j)) = (\<forall>j<i'. \<not> P (xs ! j))"
        using False by (auto simp: less_Suc_eq_0_disj)
      ultimately show ?thesis using False Suc by (simp add: algebra_simps)
    qed
  qed
qed

lemma findIndex_first:
  "i < length xs \<Longrightarrow> (findIndex P xs = int i) = (P (xs ! i) \<and> (\<forall>j<i. \<not> P (xs ! j)))"
  using findIndex_from_first[of 0 i xs P] by (simp add: findIndex_def)

lemma primaries_map: "primaries vs = length (filter (\<lambda>b. b) (map is_primary vs))"
  by (simp add: primaries_def filter_map comp_def)

lemma primaries_zero: "(primaries vs = 0) = (\<forall>v \<in> set vs. \<not> is_primary v)"
  by (simp add: primaries_def filter_empty_conv)

lemma setPrimaryColor_nth:
  assumes "i < length (variants prev)"
  shows "variants (setPrimaryColor prev c) ! i =
        (variants prev ! i)\<lparr>is_primary :=
           (color_id (variants prev ! i) = Some c \<and>
            (\<forall>j<i. color_id (variants prev ! j) \<noteq> Some c))\<rparr>"
proof -
  let ?v = "variants prev ! i"
  have "variants (setPrimaryColor prev c) ! i =
      ?v\<lparr>is_primary := (Some c = color_id ?v \<and>
         findIndex (\<lambda>varnt. color_id varnt = Some c) (variants prev) = int i)\<rparr>"
    using assms by (simp add: setPrimaryColor_def nth_enumerate_eq Let_def)
  moreover have "(Some c = color_id ?v \<and>
         findIndex (\<lambda>varnt. color_id varnt = Some c) (variants prev) = int i) =
      (color_id ?v = Some c \<and> (\<forall>j<i. color_id (variants prev ! j) \<noteq> Some c))"
    unfolding findIndex_first[OF assms, of "\<lambda>varnt. color_id varnt = Some c"] by auto
  ultimately show ?thesis by simp
qed

lemma setPrimaryColor_primaries:
  "primaries (variants (setPrimaryColor prev c)) =
     (if \<exists>v \<in> set (variants prev). color_id v = Some c then 1 else 0)"
proof -
  let ?vs = "variants prev"
  let ?n = "length ?vs"
  let ?P = "\<lambda>i. color_id (?vs ! i) = Some c"
  let ?first = "\<lambda>i. ?P i \<and> (\<forall>j<i. \<not> ?P j)"
  have len: "length (variants (setPrimaryColor prev c)) = ?n"
    by (simp add: setPrimaryColor_def)
  have flags: "map is_primary (variants (setPrimaryColor prev c)) = map ?first [0..<?n]"
  proof (rule nth_equalityI)
    show "length (map is_primary (variants (setPrimaryColor prev c))) = length (map ?first [0..<?n])"
      by (simp add: len)
  next
    fix i assume "i < length (map is_primary (variants (setPrimaryColor prev c)))"
    then have i: "i < ?n" by (simp add: len)
    then show "map is_primary (variants (setPrimaryColor prev c)) ! i = map ?first [0..<?n] ! i"
      by (simp add: len setPrimaryColor_nth)
  qed
  have "primaries (variants (setPrimaryColor prev c)) = length (filter ?first [0..<?n])"
    unfolding primaries_map flags by (simp add: filter_map comp_def)
  also have "\<dots> = card {i. i < ?n \<and> ?first i}"
    by (simp add: distinct_length_filter Collect_conj_eq Int_commute lessThan_def[symmetric]
        atLeast0LessThan)
  also have "\<dots> = (if \<exists>v \<in> set ?vs. color_id v = Some c then 1 else 0)"
  proof (cases "\<exists>v \<in> set ?vs. color_id v = Some c")
    case True
    then obtain i where i: "i < ?n" "?P i" by (auto simp: in_set_conv_nth)
    then have "\<exists>k. ?P k" by blast
    then obtain k where k: "?P k" "\<forall>j<k. \<not> ?P j" unfolding exists_least_iff[of ?P] by blast
    with i have "k < ?n" by (metis not_less_iff_gr_or_eq less_trans)
    have "{i. i < ?n \<and> ?first i} = {k}"
    proof (intro set_eqI iffI)
      fix x assume "x \<in> {i. i < ?n \<and> ?first i}"
      then have x: "?P x" "\<forall>j<x. \<not> ?P j" by simp_all
      with k have "x = k" by (metis not_less_iff_gr_or_eq)
      then show "x \<in> {k}" by simp
    next
      fix x assume "x \<in> {k}"
      with k \<open>k < ?n\<close> show "x \<in> {i. i < ?n \<and> ?first i}" by simp
    qed
    with True show ?thesis by simp
  next
    case False
    then have "{i. i < ?n \<and> ?first i} = {}" by auto
    with False show ?thesis by simp
  qed
  finally show ?thesis .
qed

text \<open>
  Claim C5. setPrimaryColor keeps the list and every field but the flag. The flag of a
  variant is set exactly when its colour is the chosen one and no variant before it in the
  list has that colour; it is cleared on every other variant, whatever its colour. So one
  variant is primary afterwards when some variant has the chosen colour, and none is when
  no variant has it.
\<close>

theorem setPrimaryColor_first_of_color:
  "length (variants (setPrimaryColor prev c)) = length (variants prev) \<and>
   (\<forall>i < length (variants prev).
      variants (setPrimaryColor prev c) ! i =
        (variants prev ! i)\<lparr>is_primary :=
           (color_id (variants prev ! i) = Some c \<and>
            (\<forall>j<i. color_id (variants prev ! j) \<noteq> Some c))\<rparr>) \<and>
   primaries (variants (setPrimaryColor prev c)) =
     (if \<exists>v \<in> set (variants prev). color_id v = Some c then 1 else 0) \<and>
   ((\<forall>v \<in> set (variants prev). color_id v \<noteq> Some c) \<longrightarrow>
      (\<forall>v \<in> set (variants (setPrimaryColor prev c)). \<not> is_primary v))"
proof (intro conjI allI impI)
  show "length (variants (setPrimaryColor prev c)) = length (variants prev)"
    by (simp add: setPrimaryColor_def)
  show "variants (setPrimaryColor prev c) ! i =
        (variants prev ! i)\<lparr>is_primary :=
           (color_id (variants prev ! i) = Some c \<and>
            (\<forall>j<i. color_id (variants prev ! j) \<noteq> Some c))\<rparr>"
    if "i < length (variants prev)" for i
    using that by (rule setPrimaryColor_nth)
  show "primaries (variants (setPrimaryColor prev c)) =
     (if \<exists>v \<in> set (variants prev). color_id v = Some c then 1 else 0)"
    by (rule setPrimaryColor_primaries)
  show "\<forall>v \<in> set (variants (setPrimaryColor prev c)). \<not> is_primary v"
    if "\<forall>v \<in> set (variants prev). color_id v \<noteq> Some c"
  proof -
    from that have "primaries (variants (setPrimaryColor prev c)) = 0"
      by (simp add: setPrimaryColor_primaries)
    then show ?thesis by (simp only: primaries_zero)
  qed
qed

theorem setPrimaryColor_first_of_color_witness:
  "map is_primary (variants example_draft) = [True, False, False, False] \<and>
   primaries (variants (setPrimaryColor example_draft ''c-blue'')) = 1 \<and>
   variants (setPrimaryColor example_draft ''c-blue'') ! 0 = example_variant ''c-red'' ''S'' 3 False \<and>
   variants (setPrimaryColor example_draft ''c-blue'') ! 2 = example_variant ''c-blue'' ''S'' 5 True \<and>
   variants (setPrimaryColor example_draft ''c-blue'') ! 3 = example_variant ''c-blue'' ''M'' 6 False"
proof -
  have l: "length (variants example_draft) = 4" by (simp add: example_draft_def)
  from setPrimaryColor_first_of_color[of example_draft "''c-blue''"]
  have *: "\<forall>i<4. variants (setPrimaryColor example_draft ''c-blue'') ! i =
        (variants example_draft ! i)\<lparr>is_primary :=
           (color_id (variants example_draft ! i) = Some ''c-blue'' \<and>
            (\<forall>j<i. color_id (variants example_draft ! j) \<noteq> Some ''c-blue''))\<rparr>"
    by (simp add: l)
  have "variants (setPrimaryColor example_draft ''c-blue'') ! 0 = example_variant ''c-red'' ''S'' 3 False"
    using *[rule_format, of 0] by (simp add: example_draft_def example_variant_def)
  moreover have "variants (setPrimaryColor example_draft ''c-blue'') ! 2 =
      example_variant ''c-blue'' ''S'' 5 True"
    using *[rule_format, of 2]
    by (simp add: example_draft_def example_variant_def numeral_2_eq_2 All_less_Suc)
  moreover have "variants (setPrimaryColor example_draft ''c-blue'') ! 3 =
      example_variant ''c-blue'' ''M'' 6 False"
    using *[rule_format, of 3]
    by (simp add: example_draft_def example_variant_def numeral_3_eq_3 All_less_Suc)
  moreover have "map is_primary (variants example_draft) = [True, False, False, False]"
    by (simp add: example_draft_def example_variant_def)
  moreover have "primaries (variants (setPrimaryColor example_draft ''c-blue'')) = 1"
    using setPrimaryColor_first_of_color[of example_draft "''c-blue''"]
    by (simp add: example_draft_def example_variant_def)
  ultimately show ?thesis by simp
qed

section \<open>Saving\<close>

lemma attach_url_map:
  "attach_url r vs =
     map (\<lambda>v. if truthy (snd r) \<and> color_id v = snd r
              then v\<lparr>image_urls := (if fst r \<in> set (image_urls v) then image_urls v
                                     else image_urls v @ [fst r])\<rparr>
              else v) vs"
  by (simp add: attach_url_def map_idI)

lemma attach_url_fields:
  "map is_primary (attach_url r vs) = map is_primary vs"
  "map stock_quantity_v (attach_url r vs) = map stock_quantity_v vs"
  "map color_id (attach_url r vs) = map color_id vs"
  by (simp_all add: attach_url_map)

lemma attach_urls_fields:
  "map is_primary (foldl (\<lambda>vs r. attach_url r vs) vs rs) = map is_primary vs"
  "map stock_quantity_v (foldl (\<lambda>vs r. attach_url r vs) vs rs) = map stock_quantity_v vs"
  by (induction rs arbitrary: vs) (simp_all add: attach_url_fields)

lemma uploaded_variants_fields:
  "map is_primary (uploaded_variants be st) = map is_primary (variants (formData st))"
  "map stock_quantity_v (uploaded_variants be st) = map stock_quantity_v (variants (formData st))"
  by (simp_all add: uploaded_variants_def attach_urls_fields)

lemma uploaded_variants_length:
  "length (uploaded_variants be st) = length (variants (formData st))"
  using uploaded_variants_fields(1)[of be st] by (metis length_map)

lemma uploaded_variants_Nil:
  "(uploaded_variants be st = []) = (variants (formData st) = [])"
  using uploaded_variants_length[of be st] by (metis length_0_conv)

lemma uploaded_variants_no_pending:
  "pendingFiles st = [] \<Longrightarrow> uploaded_variants be st = variants (formData st)"
  by (simp add: uploaded_variants_def uploadedResults_def)

lemma productPayload_variants:
  "productPayload (fd\<lparr>variants := vs\<rparr>) cur = productPayload fd cur"
  by (simp add: productPayload_def)

lemma productPayload_stock:
  "stock_quantity_p (productPayload fd cur) = reduce_stock cur"
  by (simp add: productPayload_def reduce_stock_def)

lemma reduce_stock_cong:
  "map stock_quantity_v vs = map stock_quantity_v ws \<Longrightarrow> reduce_stock vs = reduce_stock ws"
proof -
  assume eq: "map stock_quantity_v vs = map stock_quantity_v ws"
  have *: "foldl (\<lambda>acc v. js_add acc (stock_quantity_v v)) a xs =
      foldl js_add a (map stock_quantity_v xs)" for a xs
    by (induction xs arbitrary: a) simp_all
  show "reduce_stock vs = reduce_stock ws"
    unfolding reduce_stock_def * eq ..
qed

lemma js_add_exact: "\<bar>a + n\<bar> \<le> 2 ^ 53 \<Longrightarrow> js_add (Num a) n = Num (a + n)"
  by (simp add: js_add_def round_double_def)

lemma foldl_js_add_exact:
  "\<forall>k \<le> length vs. \<bar>a + total_stock (take k vs)\<bar> \<le> 2 ^ 53 \<Longrightarrow>
   foldl (\<lambda>acc v. js_add acc (stock_quantity_v v)) (Num a) vs = Num (a + total_stock vs)"
proof (induction vs arbitrary: a)
  case Nil
  then show ?case by (simp add: total_stock_def)
next
  case (Cons v vs)
  from Cons.prems[rule_format, of 1] have 1: "\<bar>a + stock_quantity_v v\<bar> \<le> 2 ^ 53"
    by (simp add: total_stock_def)
  have "\<forall>k \<le> length vs. \<bar>(a + stock_quantity_v v) + total_stock (take k vs)\<bar> \<le> 2 ^ 53"
  proof (intro allI impI)
    fix k assume "k \<le> length vs"
    with Cons.prems[rule_format, of "Suc k"]
    show "\<bar>(a + stock_quantity_v v) + total_stock (take k vs)\<bar> \<le> 2 ^ 53"
      by (simp add: total_stock_def add.assoc)
  qed
  from Cons.IH[OF this] 1 show ?case
    by (simp add: js_add_exact total_stock_def add.assoc)
qed

lemma reduce_stock_exact:
  "exact_partial_sums vs \<Longrightarrow> reduce_stock vs = Num (total_stock vs)"
proof -
  assume e: "exact_partial_sums vs"
  have "\<forall>k \<le> length vs. \<bar>0 + total_stock (take k vs)\<bar> \<le> 2 ^ 53"
  proof (intro allI impI)
    fix k assume "k \<le> length vs"
    then have "k \<in> set [0..<Suc (length vs)]" by (simp del: upt_Suc)
    with e show "\<bar>0 + total_stock (take k vs)\<bar> \<le> 2 ^ 53"
      unfolding exact_partial_sums_def by (simp del: upt_Suc)
  qed
  from foldl_js_add_exact[OF this] show ?thesis by (simp add: reduce_stock_def)
qed

lemma handleSubmit_uploaded:
  assumes "\<not> (colors (formData st) \<noteq> [] \<and> variants (formData st) = [])"
    and "\<forall>pf \<in> set (pendingFiles st). upload_result be (file_pf pf) \<noteq> None"
  shows "handleSubmit be st db =
     save_product be (st\<lparr>formData := (formData st)\<lparr>variants := uploaded_variants be st\<rparr>\<rparr>) db
       (uploaded_variants be st) (map (\<lambda>pf. Upload (file_pf pf)) (pendingFiles st))
       (if pendingFiles st = [] then []
        else [ToastLoading (length (pendingFiles st)), ToastSuccess ''All images uploaded''])"
proof (cases "pendingFiles st = []")
  case True
  then show ?thesis using assms(1)
    by (auto simp: handleSubmit_def Let_def uploaded_variants_no_pending)
next
  case False
  then show ?thesis using assms
    by (auto simp: handleSubmit_def Let_def)
qed

lemma handleSubmit_upload_failed:
  assumes "\<not> (colors (formData st) \<noteq> [] \<and> variants (formData st) = [])"
    and "\<exists>pf \<in> set (pendingFiles st). upload_result be (file_pf pf) = None"
  shows "handleSubmit be st db =
     failed st db (map (\<lambda>pf. Upload (file_pf pf)) (pendingFiles st))
       [ToastLoading (length (pendingFiles st))]
       (ErrorObj ''Failed to upload image to Supabase Storage'')"
proof -
  from assms(2) have "pendingFiles st \<noteq> []" by auto
  with assms show ?thesis by (auto simp: handleSubmit_def Let_def)
qed

lemma handleSubmit_invalid:
  assumes "colors (formData st) \<noteq> [] \<and> variants (formData st) = []"
  shows "handleSubmit be st db =
     \<lparr> outcome = Rejected, component = st, database = db, calls = [],
       toasts = [ToastError ''Please add at least one variant for your chosen colors''] \<rparr>"
  using assms by (simp add: handleSubmit_def Let_def)

text \<open>
  Claim C6. With a colour selected and no variant in the list, handleSubmit shows the
  validation message and returns: no upload and no database call is made, and the dialog's
  state and the remote tables are as before.
\<close>

theorem handleSubmit_rejects_colors_without_variants:
  assumes "colors (formData st) \<noteq> []" and "variants (formData st) = []"
  shows "handleSubmit be st db =
     \<lparr> outcome = Rejected, component = st, database = db, calls = [],
       toasts = [ToastError ''Please add at least one variant for your chosen colors''] \<rparr>"
  using assms by (simp add: handleSubmit_def Let_def)

theorem handleSubmit_rejects_colors_without_variants_witness:
  "colors (formData (example_state\<lparr>formData := example_draft\<lparr>variants := []\<rparr>\<rparr>)) \<noteq> [] \<and>
   variants (formData (example_state\<lparr>formData := example_draft\<lparr>variants := []\<rparr>\<rparr>)) = [] \<and>
   outcome (handleSubmit backend_ok (example_state\<lparr>formData := example_draft\<lparr>variants := []\<rparr>\<rparr>)
     example_db) = Rejected \<and>
   calls (handleSubmit backend_ok (example_state\<lparr>formData := example_draft\<lparr>variants := []\<rparr>\<rparr>)
     example_db) = [] \<and>
   database (handleSubmit backend_ok (example_state\<lparr>formData := example_draft\<lparr>variants := []\<rparr>\<rparr>)
     example_db) = example_db"
proof -
  let ?st = "example_state\<lparr>formData := example_draft\<lparr>variants := []\<rparr>\<rparr>"
  have h1: "colors (formData ?st) \<noteq> []" by (simp add: example_draft_def)
  have h2: "variants (formData ?st) = []" by simp
  show ?thesis
    unfolding handleSubmit_rejects_colors_without_variants[OF h1 h2]
    using h1 by simp
qed

text \<open>
  Claim C8. When the upload of one pending file fails, handleSubmit ends in its error
  branch: the uploads are the only calls made, no product or variant write is issued, and
  the tables are as before the save. (With colours and no variant the validation rejects
  first, and no upload is started at all.)
\<close>

theorem upload_failure_aborts_before_writes:
  assumes "\<exists>pf \<in> set (pendingFiles st). upload_result be (file_pf pf) = None"
  shows "database (handleSubmit be st db) = db \<and>
         outcome (handleSubmit be st db) \<noteq> Saved \<and>
         (\<forall>c \<in> set (calls (handleSubmit be st db)). \<not> is_db_call c) \<and>
         (\<not> (colors (formData st) \<noteq> [] \<and> variants (formData st) = []) \<longrightarrow>
            outcome (handleSubmit be st db) = Failed \<and>
            component (handleSubmit be st db) = st \<and>
            calls (handleSubmit be st db) = map (\<lambda>pf. Upload (file_pf pf)) (pendingFiles st) \<and>
            toasts (handleSubmit be st db) =
              [ToastLoading (length (pendingFiles st)),
               ToastError ''Failed to upload image to Supabase Storage''])"
proof (cases "colors (formData st) \<noteq> [] \<and> variants (formData st) = []")
  case True
  then show ?thesis
    by (simp add: handleSubmit_invalid)
next
  case False
  from handleSubmit_upload_failed[OF False assms, of db] show ?thesis using False
    by (auto simp: failed_def message_of_def)
qed


theorem upload_failure_aborts_before_writes_witness:
  "upload_result (backend_ok\<lparr>upload_result := (\<lambda>f. if f = ''b.png'' then None else Some f)\<rparr>)
     ''b.png'' = None \<and>
   outcome (handleSubmit (backend_ok\<lparr>upload_result := (\<lambda>f. if f = ''b.png'' then None else Some f)\<rparr>)
     example_state example_db) = Failed \<and>
   calls (handleSubmit (backend_ok\<lparr>upload_result := (\<lambda>f. if f = ''b.png'' then None else Some f)\<rparr>)
     example_state example_db) = [Upload ''a.png'', Upload ''b.png''] \<and>
   database (handleSubmit (backend_ok\<lparr>upload_result := (\<lambda>f. if f = ''b.png'' then None else Some f)\<rparr>)
     example_state example_db) = example_db"
proof -
  let ?be = "backend_ok\<lparr>upload_result := (\<lambda>f. if f = ''b.png'' then None else Some f)\<rparr>"
  have h: "\<exists>pf \<in> set (pendingFiles example_state). upload_result ?be (file_pf pf) = None"
    by (simp add: example_state_def)
  have v: "\<not> (colors (formData example_state) \<noteq> [] \<and> variants (formData example_state) = [])"
    by (simp add: example_state_def example_draft_def)
  from upload_failure_aborts_before_writes[OF h, of example_db] v
  have r: "database (handleSubmit ?be example_state example_db) = example_db"
    "outcome (handleSubmit ?be example_state example_db) = Failed"
    "calls (handleSubmit ?be example_state example_db) =
       map (\<lambda>pf. Upload (file_pf pf)) (pendingFiles example_state)"
    by blast+
  have "map (\<lambda>pf. Upload (file_pf pf)) (pendingFiles example_state) =
      [Upload ''a.png'', Upload ''b.png'']"
    by (simp add: example_state_def)
  with r show ?thesis by simp
qed

lemma product_writes_append:
  "product_writes (cs @ cs') = product_writes cs @ product_writes cs'"
  by (induction cs rule: product_writes.induct) simp_all

lemma product_writes_uploads: "product_writes (map (\<lambda>pf. Upload (file_pf pf)) pfs) = []"
  by (induction pfs) simp_all

lemma save_variants_writes:
  "product_writes (calls (save_variants be st db productId cur cs ts)) = product_writes cs"
  by (simp add: save_variants_def failed_def succeeded_def Let_def product_writes_append
      split: option.splits)

lemma write_product_call:
  "product_writes [fst (write_product be editing payload db)] = [payload]"
  by (simp add: write_product_def split: option.splits)

lemma save_product_writes:
  "product_writes (calls (save_product be st db cur cs ts)) =
     product_writes cs @ [productPayload (formData st) cur]"
proof -
  obtain c written where w: "write_product be (editingProduct st)
      (productPayload (formData st) cur) db = (c, written)" by (cases "write_product be (editingProduct st)
      (productPayload (formData st) cur) db")
  with write_product_call[of be "editingProduct st" "productPayload (formData st) cur" db]
  have c: "product_writes [c] = [productPayload (formData st) cur]" by simp
  show ?thesis
    using w c
    by (simp add: save_product_def Let_def failed_def save_variants_writes product_writes_append
        split: sum.splits prod.splits)
qed

lemma handleSubmit_writes:
  "product_writes (calls (handleSubmit be st db)) =
     (if \<not> (colors (formData st) \<noteq> [] \<and> variants (formData st) = []) \<and>
         (\<forall>pf \<in> set (pendingFiles st). upload_result be (file_pf pf) \<noteq> None)
      then [productPayload (formData st) (uploaded_variants be st)] else [])"
proof (cases "colors (formData st) \<noteq> [] \<and> variants (formData st) = []")
  case True
  then show ?thesis by (simp add: handleSubmit_invalid)
next
  case valid: False
  show ?thesis
  proof (cases "\<forall>pf \<in> set (pendingFiles st). upload_result be (file_pf pf) \<noteq> None")
    case True
    with valid show ?thesis
      by (simp add: handleSubmit_uploaded save_product_writes product_writes_uploads
          productPayload_variants)
  next
    case False
    then have "\<exists>pf \<in> set (pendingFiles st). upload_result be (file_pf pf) = None" by simp
    from handleSubmit_upload_failed[OF valid this] False show ?thesis
      by (simp add: failed_def product_writes_uploads)
  qed
qed

lemma force_primary_stock:
  "map stock_quantity_v (force_primary vs) = map stock_quantity_v vs"
  by (cases vs) (simp_all add: force_primary_def)

lemma total_stock_rows:
  "total_stock (map (\<lambda>v. v\<lparr>id_v := None, product_id := Some pid\<rparr>) (force_primary vs)) =
     total_stock vs"
proof -
  have "map stock_quantity_v (map (\<lambda>v. v\<lparr>id_v := None, product_id := Some pid\<rparr>) (force_primary vs))
      = map stock_quantity_v (force_primary vs)" by simp
  then show ?thesis by (simp add: total_stock_def force_primary_stock)
qed

lemma total_stock_uploaded:
  "total_stock (uploaded_variants be st) = total_stock (variants (formData st))"
  by (simp add: total_stock_def uploaded_variants_fields)

lemma save_variants_inserts:
  assumes "InsertVariants rows \<in> set (calls (save_variants be st db productId cur cs ts))"
    and "InsertVariants rows \<notin> set cs"
  shows "rows = map (\<lambda>v. v\<lparr>id_v := None, product_id := productId\<rparr>) (force_primary cur)"
  using assms
  by (auto simp: save_variants_def failed_def succeeded_def Let_def truthy_def
      split: option.splits if_splits)

lemma write_product_not_insert_variants:
  "fst (write_product be editing payload db) \<noteq> InsertVariants rows"
  by (simp add: write_product_def split: option.splits)

lemma save_product_inserts:
  assumes "InsertVariants rows \<in> set (calls (save_product be st db cur cs ts))"
    and "InsertVariants rows \<notin> set cs"
  shows "\<exists>pid. rows = map (\<lambda>v. v\<lparr>id_v := None, product_id := Some pid\<rparr>) (force_primary cur)"
proof -
  obtain c written where w: "write_product be (editingProduct st)
      (productPayload (formData st) cur) db = (c, written)"
    by (cases "write_product be (editingProduct st) (productPayload (formData st) cur) db")
  with write_product_not_insert_variants[of be "editingProduct st"
      "productPayload (formData st) cur" db rows]
  have c: "c \<noteq> InsertVariants rows" by simp
  show ?thesis
  proof (cases written)
    case (Inl e)
    with assms w c show ?thesis by (simp add: save_product_def failed_def)
  next
    case (Inr pd)
    obtain pid db1 where pd: "pd = (pid, db1)" by (cases pd)
    from assms(1) w Inr pd
    have "InsertVariants rows \<in> set (calls (save_variants be st db1 (Some pid) cur (cs @ [c]) ts))"
      by (simp add: save_product_def)
    moreover from assms(2) c have "InsertVariants rows \<notin> set (cs @ [c])" by auto
    ultimately show ?thesis using save_variants_inserts by blast
  qed
qed

lemma handleSubmit_inserts:
  assumes "InsertVariants rows \<in> set (calls (handleSubmit be st db))"
  shows "\<exists>pid. rows = variantsToInsert be st pid"
proof (cases "colors (formData st) \<noteq> [] \<and> variants (formData st) = []")
  case True
  with assms show ?thesis by (simp add: handleSubmit_invalid)
next
  case valid: False
  show ?thesis
  proof (cases "\<forall>pf \<in> set (pendingFiles st). upload_result be (file_pf pf) \<noteq> None")
    case True
    have "InsertVariants rows \<notin> set (map (\<lambda>pf. Upload (file_pf pf)) (pendingFiles st))" by auto
    with assms show ?thesis
      unfolding handleSubmit_uploaded[OF valid True] variantsToInsert_def
      by (rule save_product_inserts)
  next
    case False
    then have "\<exists>pf \<in> set (pendingFiles st). upload_result be (file_pf pf) = None" by simp
    from handleSubmit_upload_failed[OF valid this, of db] assms show ?thesis
      by (auto simp: failed_def)
  qed
qed

lemma handleSubmit_Saved:
  assumes "outcome (handleSubmit be st db) = Saved"
  shows "\<not> (colors (formData st) \<noteq> [] \<and> variants (formData st) = [])"
    and "\<forall>pf \<in> set (pendingFiles st). upload_result be (file_pf pf) \<noteq> None"
proof -
  show valid: "\<not> (colors (formData st) \<noteq> [] \<and> variants (formData st) = [])"
    using assms handleSubmit_invalid[of st be db] by auto
  show "\<forall>pf \<in> set (pendingFiles st). upload_result be (file_pf pf) \<noteq> None"
  proof (rule ccontr)
    assume "\<not> ?thesis"
    then have "\<exists>pf \<in> set (pendingFiles st). upload_result be (file_pf pf) = None" by simp
    from handleSubmit_upload_failed[OF valid this, of db] assms show False
      by (simp add: failed_def)
  qed
qed

lemma write_product_frame:
  assumes "write_product be editing payload db = (c, Inr (pid, db1))"
  shows "product_variants db1 = product_variants db" and "\<not> is_variant_call c"
    and "is_db_call c"
  using assms by (auto simp: write_product_def split: option.splits sum.splits)

lemma force_primary_Nil: "(force_primary vs = []) = (vs = [])"
  by (simp add: force_primary_def)

lemma force_primary_length: "length (force_primary vs) = length vs"
  by (simp add: force_primary_def)

lemma variantsToInsert_Nil: "(variantsToInsert be st pid = []) = (variants (formData st) = [])"
  by (simp add: variantsToInsert_def force_primary_Nil uploaded_variants_Nil)

lemma handleSubmit_written:
  assumes up: "\<forall>pf \<in> set (pendingFiles st). upload_result be (file_pf pf) \<noteq> None"
    and valid: "\<not> (colors (formData st) \<noteq> [] \<and> variants (formData st) = [])"
    and wr: "write_product be (editingProduct st)
               (productPayload (formData st) (uploaded_variants be st)) db = (c, Inr (pid, db1))"
  shows "handleSubmit be st db =
     save_variants be (st\<lparr>formData := (formData st)\<lparr>variants := uploaded_variants be st\<rparr>\<rparr>) db1
       (Some pid) (uploaded_variants be st)
       (map (\<lambda>pf. Upload (file_pf pf)) (pendingFiles st) @ [c])
       (if pendingFiles st = [] then []
        else [ToastLoading (length (pendingFiles st)), ToastSuccess ''All images uploaded''])"
  unfolding handleSubmit_uploaded[OF valid up]
  using wr by (simp add: save_product_def productPayload_variants)

lemma filter_variant_call_uploads:
  "filter is_variant_call (map (\<lambda>pf. Upload (file_pf pf)) pfs) = []"
  by (induction pfs) simp_all

lemma rows_of_replaced:
  "filter (\<lambda>r. product_id r = Some pid)
     (filter (\<lambda>r. product_id r \<noteq> Some pid) old @
      map (\<lambda>v. v\<lparr>id_v := None, product_id := Some pid\<rparr>) vs) =
   map (\<lambda>v. v\<lparr>id_v := None, product_id := Some pid\<rparr>) vs"
proof -
  have "filter (\<lambda>r. product_id r = Some pid) (filter (\<lambda>r. product_id r \<noteq> Some pid) old) = []"
    by (simp add: filter_empty_conv)
  moreover have "filter (\<lambda>r. product_id r = Some pid)
      (map (\<lambda>v. v\<lparr>id_v := None, product_id := Some pid\<rparr>) vs) =
      map (\<lambda>v. v\<lparr>id_v := None, product_id := Some pid\<rparr>) vs"
    by (induction vs) simp_all
  ultimately show ?thesis by simp
qed

lemma save_variants_products:
  "products (database (save_variants be st db productId cur cs ts)) = products db"
  by (simp add: save_variants_def failed_def succeeded_def Let_def split: option.splits)

lemma variantsToInsert_stock:
  "map stock_quantity_v (variantsToInsert be st pid) =
     map stock_quantity_v (variants (formData st))"
proof -
  have "map stock_quantity_v (variantsToInsert be st pid) =
      map stock_quantity_v (force_primary (uploaded_variants be st))"
    by (simp add: variantsToInsert_def)
  then show ?thesis by (simp add: force_primary_stock uploaded_variants_fields)
qed

lemma reduce_stock_uploaded:
  "reduce_stock (uploaded_variants be st) = reduce_stock (variants (formData st))"
  by (rule reduce_stock_cong) (simp add: uploaded_variants_fields)

lemma handleSubmit_product_row:
  assumes up: "\<forall>pf \<in> set (pendingFiles st). upload_result be (file_pf pf) \<noteq> None"
    and valid: "\<not> (colors (formData st) \<noteq> [] \<and> variants (formData st) = [])"
    and wr: "write_product be (editingProduct st)
               (productPayload (formData st) (uploaded_variants be st)) db = (c, Inr (pid, db1))"
  shows "products (database (handleSubmit be st db)) = products db1"
  unfolding handleSubmit_written[OF up valid wr] by (rule save_variants_products)

text \<open>
  Claim C7, as the code has it. Whenever handleSubmit writes the product row, the stock it
  writes is the \<open>reduce\<close> over the variants of the draft, which are the variants it goes
  on to insert (uploads only add image URLs): their sum from the left in double precision.
  That is their exact sum when no partial sum is larger than \<open>2^53\<close> in size. The update
  of an existing product and the insert of a new one leave that stock in the product's
  row; a completed save writes the row once. The text of the form's Stock field has no
  part in it.
\<close>

theorem product_stock_is_sum_of_variants:
  "(\<forall>p \<in> set (product_writes (calls (handleSubmit be st db))).
      stock_quantity_p p = reduce_stock (variants (formData st))) \<and>
   (exact_partial_sums (variants (formData st)) \<longrightarrow>
      reduce_stock (variants (formData st)) = Num (total_stock (variants (formData st)))) \<and>
   (\<forall>rows. InsertVariants rows \<in> set (calls (handleSubmit be st db)) \<longrightarrow>
      map stock_quantity_v rows = map stock_quantity_v (variants (formData st))) \<and>
   (outcome (handleSubmit be st db) = Saved \<longrightarrow>
      length (product_writes (calls (handleSubmit be st db))) = 1) \<and>
   (\<forall>pid old.
      \<not> (colors (formData st) \<noteq> [] \<and> variants (formData st) = []) \<and>
      (\<forall>pf \<in> set (pendingFiles st). upload_result be (file_pf pf) \<noteq> None) \<and>
      editingProduct st = Some pid \<and> update_error be = None \<and> products db pid = Some old \<longrightarrow>
      (\<exists>p. products (database (handleSubmit be st db)) pid = Some p \<and>
           stock_quantity_p p = reduce_stock (variants (formData st)))) \<and>
   (\<forall>new_id.
      \<not> (colors (formData st) \<noteq> [] \<and> variants (formData st) = []) \<and>
      (\<forall>pf \<in> set (pendingFiles st). upload_result be (file_pf pf) \<noteq> None) \<and>
      editingProduct st = None \<and> insert_result be = Inr new_id \<longrightarrow>
      (\<exists>p. products (database (handleSubmit be st db)) new_id = Some p \<and>
           stock_quantity_p p = reduce_stock (variants (formData st)))) \<and>
   map stock_quantity_p
     (product_writes (calls (handleSubmit be
        (st\<lparr>formData := (formData st)\<lparr>stock_quantity := typed\<rparr>\<rparr>) db))) =
   map stock_quantity_p (product_writes (calls (handleSubmit be st db)))"
proof (intro conjI allI impI ballI)
  fix p assume "p \<in> set (product_writes (calls (handleSubmit be st db)))"
  then have "p = productPayload (formData st) (uploaded_variants be st)"
    by (simp add: handleSubmit_writes split: if_splits)
  then show "stock_quantity_p p = reduce_stock (variants (formData st))"
    by (simp add: productPayload_stock reduce_stock_uploaded)
next
  assume "exact_partial_sums (variants (formData st))"
  then show "reduce_stock (variants (formData st)) = Num (total_stock (variants (formData st)))"
    by (rule reduce_stock_exact)
next
  fix rows assume "InsertVariants rows \<in> set (calls (handleSubmit be st db))"
  then obtain pid where "rows = variantsToInsert be st pid"
    using handleSubmit_inserts by blast
  then show "map stock_quantity_v rows = map stock_quantity_v (variants (formData st))"
    by (simp add: variantsToInsert_stock)
next
  assume "outcome (handleSubmit be st db) = Saved"
  from handleSubmit_Saved[OF this] show "length (product_writes (calls (handleSubmit be st db))) = 1"
    by (simp add: handleSubmit_writes)
next
  fix pid old
  let ?p = "productPayload (formData st) (uploaded_variants be st)"
  assume a: "\<not> (colors (formData st) \<noteq> [] \<and> variants (formData st) = []) \<and>
      (\<forall>pf \<in> set (pendingFiles st). upload_result be (file_pf pf) \<noteq> None) \<and>
      editingProduct st = Some pid \<and> update_error be = None \<and> products db pid = Some old"
  then have "pid \<in> dom (products db)" by auto
  with a have wr: "write_product be (editingProduct st) ?p db =
      (UpdateProduct pid ?p, Inr (pid, db\<lparr>products := (products db)(pid \<mapsto> ?p)\<rparr>))"
    by (simp add: write_product_def)
  from a have "products (database (handleSubmit be st db)) = (products db)(pid \<mapsto> ?p)"
    using handleSubmit_product_row[OF _ _ wr] by simp
  then show "\<exists>p. products (database (handleSubmit be st db)) pid = Some p \<and>
           stock_quantity_p p = reduce_stock (variants (formData st))"
    by (simp add: productPayload_stock reduce_stock_uploaded)
next
  fix new_id
  let ?p = "productPayload (formData st) (uploaded_variants be st)"
  assume a: "\<not> (colors (formData st) \<noteq> [] \<and> variants (formData st) = []) \<and>
      (\<forall>pf \<in> set (pendingFiles st). upload_result be (file_pf pf) \<noteq> None) \<and>
      editingProduct st = None \<and> insert_result be = Inr new_id"
  then have wr: "write_product be (editingProduct st) ?p db =
      (InsertProduct ?p, Inr (new_id, db\<lparr>products := (products db)(new_id \<mapsto> ?p)\<rparr>))"
    by (simp add: write_product_def)
  from a have "products (database (handleSubmit be st db)) = (products db)(new_id \<mapsto> ?p)"
    using handleSubmit_product_row[OF _ _ wr] by simp
  then show "\<exists>p. products (database (handleSubmit be st db)) new_id = Some p \<and>
           stock_quantity_p p = reduce_stock (variants (formData st))"
    by (simp add: productPayload_stock reduce_stock_uploaded)
next
  let ?st = "st\<lparr>formData := (formData st)\<lparr>stock_quantity := typed\<rparr>\<rparr>"
  have "uploaded_variants be ?st = uploaded_variants be st"
    by (simp add: uploaded_variants_def uploadedResults_def)
  then show "map stock_quantity_p (product_writes (calls (handleSubmit be ?st db))) =
      map stock_quantity_p (product_writes (calls (handleSubmit be st db)))"
    by (simp add: handleSubmit_writes productPayload_stock)
qed

text \<open>
  Claim C7 as stated ("equals the sum") fails once a partial sum passes \<open>2^53\<close>: for the
  stocks \<open>2^53\<close>, \<open>1\<close> and \<open>-2^53\<close>, whose sum is 1, the first addition is rounded back
  to \<open>2^53\<close> and the product row is written with stock 0.
\<close>

theorem product_stock_is_sum_of_variants_counterexample:
  "total_stock (variants (formData big_stock_state)) = 1 \<and>
   map stock_quantity_p
     (product_writes (calls (handleSubmit backend_insert_fails big_stock_state example_db)))
     = [Num 0] \<and>
   map_option stock_quantity_p
     (products (database (handleSubmit backend_insert_fails big_stock_state example_db)) ''p-1'')
     = Some (Num 0)"
  by code_simp

theorem product_stock_is_sum_of_variants_witness:
  "stock_quantity (formData example_state) = ''1'' \<and>
   map stock_quantity_v (variants (formData example_state)) = [3, 4, 5, 6] \<and>
   exact_partial_sums (variants (formData example_state)) \<and>
   map stock_quantity_p (product_writes (calls (handleSubmit backend_ok example_state example_db)))
     = [Num 18] \<and>
   map_option stock_quantity_p
     (products (database (handleSubmit backend_ok example_state example_db)) ''p-1'') =
     Some (Num 18)"
proof -
  let ?r = "handleSubmit backend_ok example_state example_db"
  let ?ws = "product_writes (calls ?r)"
  note main = product_stock_is_sum_of_variants[of backend_ok example_state example_db]
  have s: "map stock_quantity_v (variants (formData example_state)) = [3, 4, 5, 6]"
    by (simp add: example_state_def example_draft_def example_variant_def)
  then have t: "total_stock (variants (formData example_state)) = 18"
    by (simp add: total_stock_def)
  have e: "exact_partial_sums (variants (formData example_state))" by code_simp
  with main t have r: "reduce_stock (variants (formData example_state)) = Num 18" by simp
  have "length ?ws = 1" by code_simp
  then obtain p where p: "?ws = [p]" by (cases ?ws) auto
  with main r have "stock_quantity_p p = Num 18" by simp
  with p have 1: "map stock_quantity_p ?ws = [Num 18]" by simp
  have h: "\<not> (colors (formData example_state) \<noteq> [] \<and> variants (formData example_state) = []) \<and>
      (\<forall>pf \<in> set (pendingFiles example_state). upload_result backend_ok (file_pf pf) \<noteq> None) \<and>
      editingProduct example_state = Some ''p-1'' \<and> update_error backend_ok = None \<and>
      products example_db ''p-1'' = Some (productPayload (example_draft\<lparr>name := ''Old shirt''\<rparr>) [])"
    by (simp add: example_state_def example_draft_def backend_ok_def example_db_def)
  with main r obtain p' where "products (database ?r) ''p-1'' = Some p'"
    "stock_quantity_p p' = Num 18" by metis
  then have 2: "map_option stock_quantity_p (products (database ?r) ''p-1'') = Some (Num 18)"
    by simp
  from s e 1 2 show ?thesis
    by (simp add: example_state_def example_draft_def initialFormData_def)
qed

text \<open>
  Claim C9. Once the save is past the validation and the uploads and the product row is
  written (for a product id that is not empty), handleSubmit first deletes all variant rows
  of the product, whatever the list holds, and then, as a second and separate call,
  inserts the whole list when it is not empty. When the delete returns an error the rows
  stay. When both calls succeed the product's rows are the list. When the delete succeeds
  and the insert returns an error, the run ends in the error branch, the product row stays
  written, the old rows stay deleted and the product has no variant row: nothing is put
  back.
\<close>

theorem variants_deleted_then_inserted:
  assumes valid: "\<not> (colors (formData st) \<noteq> [] \<and> variants (formData st) = [])"
    and up: "\<forall>pf \<in> set (pendingFiles st). upload_result be (file_pf pf) \<noteq> None"
    and wr: "write_product be (editingProduct st)
               (productPayload (formData st) (uploaded_variants be st)) db = (c, Inr (pid, db1))"
    and pid: "pid \<noteq> []"
  shows "filter is_variant_call (calls (handleSubmit be st db)) =
           DeleteVariants pid #
           (if delete_error be = None \<and> variants (formData st) \<noteq> []
            then [InsertVariants (variantsToInsert be st pid)] else []) \<and>
         (\<forall>e. delete_error be = Some e \<longrightarrow>
            outcome (handleSubmit be st db) = Failed \<and>
            last (toasts (handleSubmit be st db)) = ToastError (message_of e) \<and>
            database (handleSubmit be st db) = db1) \<and>
         (delete_error be = None \<and> variants (formData st) = [] \<longrightarrow>
            outcome (handleSubmit be st db) = Saved \<and>
            product_variants (database (handleSubmit be st db)) =
              filter (\<lambda>r. product_id r \<noteq> Some pid) (product_variants db) \<and>
            rows_of pid (database (handleSubmit be st db)) = []) \<and>
         (delete_error be = None \<and> variants (formData st) \<noteq> [] \<and> variants_error be = None \<longrightarrow>
            outcome (handleSubmit be st db) = Saved \<and>
            product_variants (database (handleSubmit be st db)) =
              filter (\<lambda>r. product_id r \<noteq> Some pid) (product_variants db) @
              variantsToInsert be st pid) \<and>
         (\<forall>e. delete_error be = None \<and> variants (formData st) \<noteq> [] \<and>
              variants_error be = Some e \<longrightarrow>
            outcome (handleSubmit be st db) = Failed \<and>
            last (toasts (handleSubmit be st db)) = ToastError (message_of e) \<and>
            products (database (handleSubmit be st db)) = products db1 \<and>
            product_variants (database (handleSubmit be st db)) =
              filter (\<lambda>r. product_id r \<noteq> Some pid) (product_variants db) \<and>
            rows_of pid (database (handleSubmit be st db)) = [])"
proof -
  note run = handleSubmit_written[OF up valid wr]
  note frame = write_product_frame[OF wr]
  have no_rows: "filter (\<lambda>r. product_id r = Some pid)
      (filter (\<lambda>r. product_id r \<noteq> Some pid) (product_variants db)) = []"
    by (simp add: filter_empty_conv)
  show ?thesis
  proof (cases "delete_error be")
    case (Some e)
    with pid frame show ?thesis
      unfolding run
      by (simp add: save_variants_def Let_def truthy_def failed_def filter_variant_call_uploads)
  next
    case del: None
    show ?thesis
    proof (cases "variants (formData st) = []")
      case True
      then have "uploaded_variants be st = []" by (simp add: uploaded_variants_Nil)
      with True pid del frame no_rows show ?thesis
        unfolding run
        by (simp add: save_variants_def Let_def truthy_def succeeded_def rows_of_def
            force_primary_def filter_variant_call_uploads)
    next
      case ne: False
      then have rows: "variantsToInsert be st pid \<noteq> []" by (simp add: variantsToInsert_Nil)
      show ?thesis
      proof (cases "variants_error be")
        case None
        with rows ne pid del frame show ?thesis
          unfolding run
          by (simp add: save_variants_def Let_def truthy_def succeeded_def
              filter_variant_call_uploads variantsToInsert_def)
      next
        case (Some e)
        with rows ne pid del frame no_rows show ?thesis
          unfolding run
          by (simp add: save_variants_def Let_def truthy_def failed_def rows_of_def
              filter_variant_call_uploads variantsToInsert_def)
      qed
    qed
  qed
qed

lemma example_write:
  "write_product be0 (Some ''p-1'') p example_db =
     (UpdateProduct ''p-1'' p,
      case update_error be0 of Some e \<Rightarrow> Inl e
      | None \<Rightarrow> Inr (''p-1'', example_db\<lparr>products := (products example_db)(''p-1'' \<mapsto> p)\<rparr>))"
  by (simp add: write_product_def example_db_def split: option.splits)

theorem variants_deleted_then_inserted_witness:
  "variants (formData example_state) \<noteq> [] \<and>
   delete_error backend_insert_fails = None \<and>
   variants_error backend_insert_fails = Some (ErrorObj ''duplicate key value'') \<and>
   map id_v (rows_of ''p-1'' example_db) = [Some ''v-1''] \<and>
   outcome (handleSubmit backend_insert_fails example_state example_db) = Failed \<and>
   rows_of ''p-1'' (database (handleSubmit backend_insert_fails example_state example_db)) = [] \<and>
   filter is_variant_call (calls (handleSubmit backend_insert_fails example_state example_db)) =
     [DeleteVariants ''p-1'', InsertVariants (variantsToInsert backend_insert_fails example_state ''p-1'')] \<and>
   variants (formData (example_state\<lparr>formData := setColors draw example_draft []\<rparr>)) = [] \<and>
   filter is_variant_call (calls (handleSubmit backend_ok
     (example_state\<lparr>formData := setColors draw example_draft []\<rparr>) example_db)) =
     [DeleteVariants ''p-1''] \<and>
   rows_of ''p-1'' (database (handleSubmit backend_ok
     (example_state\<lparr>formData := setColors draw example_draft []\<rparr>) example_db)) = []"
proof -
  let ?be = backend_insert_fails
  let ?p = "productPayload (formData example_state) (uploaded_variants ?be example_state)"
  have up: "\<forall>pf \<in> set (pendingFiles example_state). upload_result ?be (file_pf pf) \<noteq> None"
    by (simp add: backend_insert_fails_def backend_ok_def)
  have ne: "variants (formData example_state) \<noteq> []"
    by (simp add: example_state_def example_draft_def)
  then have valid: "\<not> (colors (formData example_state) \<noteq> [] \<and>
      variants (formData example_state) = [])" by simp
  have wr: "write_product ?be (editingProduct example_state) ?p example_db =
      (UpdateProduct ''p-1'' ?p,
       Inr (''p-1'', example_db\<lparr>products := (products example_db)(''p-1'' \<mapsto> ?p)\<rparr>))"
    by (simp add: example_state_def example_write backend_insert_fails_def backend_ok_def)
  have pid: "''p-1'' \<noteq> []" by simp
  have del: "delete_error ?be = None" and ve: "variants_error ?be = Some (ErrorObj ''duplicate key value'')"
    by (simp_all add: backend_insert_fails_def backend_ok_def)
  have old: "map id_v (rows_of ''p-1'' example_db) = [Some ''v-1'']"
    by (simp add: rows_of_def example_db_def)
  from variants_deleted_then_inserted[OF valid up wr pid] ve ne del
  have 1: "outcome (handleSubmit ?be example_state example_db) = Failed"
    "rows_of ''p-1'' (database (handleSubmit ?be example_state example_db)) = []"
    "filter is_variant_call (calls (handleSubmit ?be example_state example_db)) =
       [DeleteVariants ''p-1'', InsertVariants (variantsToInsert ?be example_state ''p-1'')]"
    by simp_all
  let ?st = "example_state\<lparr>formData := setColors draw example_draft []\<rparr>"
  let ?q = "productPayload (formData ?st) (uploaded_variants backend_ok ?st)"
  have e: "variants (formData ?st) = []" "colors (formData ?st) = []"
    by (simp_all add: setColors_def)
  then have valid': "\<not> (colors (formData ?st) \<noteq> [] \<and> variants (formData ?st) = [])" by simp
  have up': "\<forall>pf \<in> set (pendingFiles ?st). upload_result backend_ok (file_pf pf) \<noteq> None"
    by (simp add: backend_ok_def)
  have wr': "write_product backend_ok (editingProduct ?st) ?q example_db =
      (UpdateProduct ''p-1'' ?q,
       Inr (''p-1'', example_db\<lparr>products := (products example_db)(''p-1'' \<mapsto> ?q)\<rparr>))"
    by (simp add: example_state_def example_write backend_ok_def)
  have del': "delete_error backend_ok = None" by (simp add: backend_ok_def)
  from variants_deleted_then_inserted[OF valid' up' wr' pid] e(1) del'
  have 2: "filter is_variant_call (calls (handleSubmit backend_ok ?st example_db)) =
       [DeleteVariants ''p-1'']"
    "rows_of ''p-1'' (database (handleSubmit backend_ok ?st example_db)) = []"
    by simp_all
  from 1 2 ne del ve old e(1) show ?thesis by simp
qed


lemma force_primary_flags:
  "map is_primary (force_primary vs) =
     (if vs \<noteq> [] \<and> (\<forall>v \<in> set vs. \<not> is_primary v)
      then True # replicate (length vs - 1) False
      else map is_primary vs)"
proof (cases vs)
  case Nil
  then show ?thesis by (simp add: force_primary_def)
next
  case (Cons v vs')
  have "map is_primary vs' = replicate (length vs') False" if "\<forall>v \<in> set vs'. \<not> is_primary v"
    using that by (induction vs') simp_all
  with Cons show ?thesis by (auto simp: force_primary_def)
qed

lemma primaries_force_primary:
  "vs \<noteq> [] \<Longrightarrow> primaries (force_primary vs) = max 1 (primaries vs)"
proof (cases "\<forall>v \<in> set vs. \<not> is_primary v")
  case True
  assume "vs \<noteq> []"
  with True have "map is_primary (force_primary vs) = True # replicate (length vs - 1) False"
    by (simp add: force_primary_flags)
  then have "primaries (force_primary vs) = 1" by (simp add: primaries_map)
  moreover from True have "primaries vs = 0" by (simp add: primaries_zero)
  ultimately show ?thesis by simp
next
  case False
  then have "primaries vs \<noteq> 0" by (simp add: primaries_zero)
  moreover from False have "force_primary vs = vs" by (auto simp: force_primary_def)
  ultimately show ?thesis by simp
qed

lemma variantsToInsert_flags:
  "map is_primary (variantsToInsert be st pid) =
     map is_primary (force_primary (uploaded_variants be st))"
  by (simp add: variantsToInsert_def)

lemma primaries_cong: "map is_primary vs = map is_primary ws \<Longrightarrow> primaries vs = primaries ws"
  by (simp add: primaries_map)

lemma save_variants_Saved:
  assumes "outcome (save_variants be st db (Some pid) cur cs ts) = Saved" and "pid \<noteq> []"
  shows "product_variants (database (save_variants be st db (Some pid) cur cs ts)) =
     filter (\<lambda>r. product_id r \<noteq> Some pid) (product_variants db) @
     map (\<lambda>v. v\<lparr>id_v := None, product_id := Some pid\<rparr>) (force_primary cur)"
  using assms
  by (auto simp: save_variants_def Let_def truthy_def failed_def succeeded_def
      split: option.splits if_splits)

text \<open>
  Claim C4, as the code has it. handleSubmit forces a primary variant only when none is
  flagged ("ensure at least one"), and never clears a flag. So after a completed save of a
  product with a non-empty id, the persisted list is the draft's list with the flags as
  they were, except that the first variant is made primary when none was: the number of
  primary variants is the number flagged before, or 1 when that was 0. It is exactly one
  when at most one was flagged before, and zero when the list is empty.
\<close>

theorem saved_list_has_a_primary:
  assumes saved: "outcome (handleSubmit be st db) = Saved"
    and wr: "write_product be (editingProduct st)
               (productPayload (formData st) (uploaded_variants be st)) db = (c, Inr (pid, db1))"
    and pid: "pid \<noteq> []"
  shows "rows_of pid (database (handleSubmit be st db)) = variantsToInsert be st pid \<and>
         length (variantsToInsert be st pid) = length (variants (formData st)) \<and>
         (variants (formData st) = [] \<longrightarrow> primaries (variantsToInsert be st pid) = 0) \<and>
         (variants (formData st) \<noteq> [] \<longrightarrow>
            primaries (variantsToInsert be st pid) = max 1 (primaries (variants (formData st)))) \<and>
         (variants (formData st) \<noteq> [] \<and> primaries (variants (formData st)) \<le> 1 \<longrightarrow>
            primaries (variantsToInsert be st pid) = 1) \<and>
         (variants (formData st) \<noteq> [] \<and> primaries (variants (formData st)) = 0 \<longrightarrow>
            map is_primary (variantsToInsert be st pid) =
              True # replicate (length (variants (formData st)) - 1) False)"
proof -
  let ?cur = "uploaded_variants be st"
  let ?vs = "variants (formData st)"
  note run = handleSubmit_written[OF handleSubmit_Saved(2)[OF saved] handleSubmit_Saved(1)[OF saved] wr]
  from saved have "outcome (save_variants be
      (st\<lparr>formData := (formData st)\<lparr>variants := ?cur\<rparr>\<rparr>) db1 (Some pid) ?cur
      (map (\<lambda>pf. Upload (file_pf pf)) (pendingFiles st) @ [c])
      (if pendingFiles st = [] then []
       else [ToastLoading (length (pendingFiles st)), ToastSuccess ''All images uploaded''])) = Saved"
    unfolding run .
  from save_variants_Saved[OF this pid]
  have "product_variants (database (handleSubmit be st db)) =
      filter (\<lambda>r. product_id r \<noteq> Some pid) (product_variants db) @ variantsToInsert be st pid"
    unfolding run by (simp add: variantsToInsert_def write_product_frame(1)[OF wr])
  then have 1: "rows_of pid (database (handleSubmit be st db)) = variantsToInsert be st pid"
    by (simp add: rows_of_def variantsToInsert_def rows_of_replaced del: filter_append)
  have 2: "length (variantsToInsert be st pid) = length ?vs"
    by (simp add: variantsToInsert_def force_primary_length uploaded_variants_length)
  have cur: "primaries ?cur = primaries ?vs"
    by (rule primaries_cong) (simp add: uploaded_variants_fields)
  have ins: "primaries (variantsToInsert be st pid) = primaries (force_primary ?cur)"
    by (rule primaries_cong) (simp add: variantsToInsert_flags)
  have 3: "primaries (variantsToInsert be st pid) = 0" if "?vs = []"
    using that 2 by (simp add: primaries_def)
  have 4: "primaries (variantsToInsert be st pid) = max 1 (primaries ?vs)" if "?vs \<noteq> []"
    using that by (simp add: ins primaries_force_primary uploaded_variants_Nil cur)
  have 5: "map is_primary (variantsToInsert be st pid) = True # replicate (length ?vs - 1) False"
    if "?vs \<noteq> []" "primaries ?vs = 0"
  proof -
    from that(2) cur have "primaries ?cur = 0" by simp
    then have "\<forall>v \<in> set ?cur. \<not> is_primary v"
      by (simp only: primaries_zero)
    with that(1) show ?thesis
      by (simp add: variantsToInsert_flags force_primary_flags uploaded_variants_Nil
          uploaded_variants_length)
  qed
  from 1 2 3 4 5 show ?thesis by (auto simp: max_def)
qed

text \<open>
  Claim C4 as stated ("exactly one primary after save") fails on the draft populated from
  two primary rows, one per colour: both flags are saved.
\<close>

theorem saved_list_has_a_primary_counterexample:
  "outcome (handleSubmit backend_ok two_primaries_state example_db) = Saved \<and>
   full_matrix (formData two_primaries_state) \<and>
   map is_primary (rows_of ''p-1'' (database (handleSubmit backend_ok two_primaries_state example_db)))
     = [True, True] \<and>
   primaries (rows_of ''p-1'' (database (handleSubmit backend_ok two_primaries_state example_db))) = 2"
  by code_simp

theorem saved_list_has_a_primary_witness:
  "outcome (handleSubmit backend_ok no_primary_state example_db) = Saved \<and>
   primaries (variants (formData no_primary_state)) = 0 \<and>
   map is_primary (rows_of ''p-1'' (database (handleSubmit backend_ok no_primary_state example_db)))
     = [True, False, False, False]"
proof -
  let ?be = backend_ok
  let ?st = no_primary_state
  let ?p = "productPayload (formData ?st) (uploaded_variants ?be ?st)"
  have saved: "outcome (handleSubmit ?be ?st example_db) = Saved" by code_simp
  have wr: "write_product ?be (editingProduct ?st) ?p example_db =
      (UpdateProduct ''p-1'' ?p,
       Inr (''p-1'', example_db\<lparr>products := (products example_db)(''p-1'' \<mapsto> ?p)\<rparr>))"
    by (simp add: no_primary_state_def example_state_def example_write backend_ok_def)
  have pid: "''p-1'' \<noteq> []" by simp
  have vs: "variants (formData ?st) \<noteq> []" "length (variants (formData ?st)) = 4"
    "primaries (variants (formData ?st)) = 0"
    by (simp_all add: no_primary_state_def example_variant_def primaries_def)
  from saved_list_has_a_primary[OF saved wr pid] vs saved
  show ?thesis by (simp add: numeral_3_eq_3)
qed

text \<open>
  Claim C10, as the code has it. After setColors with the empty colour set the draft has
  no colour and no variant, so the validation does not fire; on an existing product (its
  id not empty, its row present), with the uploads, the update and the delete succeeding,
  handleSubmit updates the row with stock 0, deletes the product's variant rows and makes
  no insert: the product is left without variants.
\<close>

theorem cleared_colors_remove_all_variants:
  assumes cleared: "formData st = setColors rnd fd0 []"
    and edit: "editingProduct st = Some pid" and pid: "pid \<noteq> []"
    and row: "products db pid = Some row"
    and up: "\<forall>pf \<in> set (pendingFiles st). upload_result be (file_pf pf) \<noteq> None"
    and upd: "update_error be = None" and del: "delete_error be = None"
  shows "colors (formData st) = [] \<and> variants (formData st) = [] \<and>
         outcome (handleSubmit be st db) = Saved \<and>
         filter is_db_call (calls (handleSubmit be st db)) =
           [UpdateProduct pid (productPayload (formData st) []), DeleteVariants pid] \<and>
         stock_quantity_p (productPayload (formData st) []) = Num 0 \<and>
         products (database (handleSubmit be st db)) pid = Some (productPayload (formData st) []) \<and>
         product_variants (database (handleSubmit be st db)) =
           filter (\<lambda>r. product_id r \<noteq> Some pid) (product_variants db) \<and>
         rows_of pid (database (handleSubmit be st db)) = []"
proof -
  from cleared have c: "colors (formData st) = []" and v: "variants (formData st) = []"
    by (simp_all add: setColors_def)
  from v have cur: "uploaded_variants be st = []" by (simp add: uploaded_variants_Nil)
  let ?p = "productPayload (formData st) []"
  let ?db1 = "db\<lparr>products := (products db)(pid \<mapsto> ?p)\<rparr>"
  from row have "pid \<in> dom (products db)" by auto
  with edit upd have wr: "write_product be (editingProduct st)
      (productPayload (formData st) (uploaded_variants be st)) db =
      (UpdateProduct pid ?p, Inr (pid, ?db1))"
    by (simp add: write_product_def cur)
  from c have valid: "\<not> (colors (formData st) \<noteq> [] \<and> variants (formData st) = [])" by simp
  have ups: "filter is_db_call (map (\<lambda>pf. Upload (file_pf pf)) pfs) = []"
    for pfs :: "PendingFile list"
    by (induction pfs) simp_all
  have no_rows: "filter (\<lambda>r. product_id r = Some pid)
      (filter (\<lambda>r. product_id r \<noteq> Some pid) (product_variants db)) = []"
    by (simp add: filter_empty_conv)
  show ?thesis
    unfolding handleSubmit_written[OF up valid wr]
    using c v pid del no_rows
    by (simp add: save_variants_def Let_def truthy_def succeeded_def cur force_primary_def
        ups rows_of_def productPayload_stock reduce_stock_def)
qed

text \<open>
  Claim C10 as stated ("with an empty colour set the variant list is necessarily empty")
  fails on the draft populated from a row without a colour: no colour is selected, the
  variant is in the list, and the save inserts it again with its stock.
\<close>

theorem cleared_colors_counterexample:
  "colors (formData orphan_state) = [] \<and> variants (formData orphan_state) \<noteq> [] \<and>
   outcome (handleSubmit backend_ok orphan_state example_db) = Saved \<and>
   map stock_quantity_v (rows_of ''p-1'' (database (handleSubmit backend_ok orphan_state example_db)))
     = [7] \<and>
   map stock_quantity_p (product_writes (calls (handleSubmit backend_ok orphan_state example_db)))
     = [Num 7]"
  by code_simp

theorem cleared_colors_remove_all_variants_witness:
  "formData (example_state\<lparr>formData := setColors draw example_draft []\<rparr>) =
     setColors draw example_draft [] \<and>
   map id_v (rows_of ''p-1'' example_db) = [Some ''v-1''] \<and>
   outcome (handleSubmit backend_ok (example_state\<lparr>formData := setColors draw example_draft []\<rparr>)
     example_db) = Saved \<and>
   rows_of ''p-1'' (database (handleSubmit backend_ok
     (example_state\<lparr>formData := setColors draw example_draft []\<rparr>) example_db)) = [] \<and>
   map stock_quantity_p (product_writes (calls (handleSubmit backend_ok
     (example_state\<lparr>formData := setColors draw example_draft []\<rparr>) example_db))) = [Num 0]"
proof -
  let ?st = "example_state\<lparr>formData := setColors draw example_draft []\<rparr>"
  have h1: "formData ?st = setColors draw example_draft []" by simp
  have h2: "editingProduct ?st = Some ''p-1''" by (simp add: example_state_def)
  have h3: "''p-1'' \<noteq> []" by simp
  have h4: "products example_db ''p-1'' =
      Some (productPayload (example_draft\<lparr>name := ''Old shirt''\<rparr>) [])"
    by (simp add: example_db_def)
  have h5: "\<forall>pf \<in> set (pendingFiles ?st). upload_result backend_ok (file_pf pf) \<noteq> None"
    by (simp add: backend_ok_def)
  have h6: "update_error backend_ok = None" and h7: "delete_error backend_ok = None"
    by (simp_all add: backend_ok_def)
  have old: "map id_v (rows_of ''p-1'' example_db) = [Some ''v-1'']"
    by (simp add: rows_of_def example_db_def)
  have ws: "map stock_quantity_p (product_writes (calls (handleSubmit backend_ok ?st example_db))) =
      [Num 0]"
    by code_simp
  from cleared_colors_remove_all_variants[OF h1 h2 h3 h4 h5 h6 h7] old ws
  show ?thesis by simp
qed

end
